theory Spec2Isabelle
  imports Complex_Main "HOL-Library.Multiset" "HOL-Library.Char_ord" "HOL-Library.List_Lexorder"
begin

section \<open>JavaScript values and the host\<close>

text \<open>
  The pipeline of \<^verbatim>\<open>src/utils/secureDataProcessor.js\<close> works on untyped values: CSV cells,
  filter parameters, company selections. A value is a primitive (a Symbol included), an
  array of values, or another object. Of an object the pipeline only ever asks for its
  conversion to a string, so an object is given by what that conversion does: it returns a
  string (\<^verbatim>\<open>[object Object]\<close> for a plain object) or it throws (a TypeError for an object
  created without a prototype). A Symbol has no conversion to a string: the attempt throws
  a TypeError. A JavaScript string is a sequence of code units; here a code unit is a
  \<^typ>\<open>char\<close>, so the model covers the code units below 256.

  A number is a double: not-a-number, an infinity, or a finite value, which is a rational.
  Negative zero is identified with zero (no operation of the pipeline tells them apart).
\<close>

datatype error = Error string | TypeError | Failed error

datatype jsnum = NaN | PosInfinity | NegInfinity | Fin rat

datatype js_value =
    JUndefined
  | JNull
  | JBool bool
  | JNum jsnum
  | JStr string
  | JSymbol
  | JObj "error + string"
  | JArr "js_value list"

text \<open>
  A computation that may throw returns a sum: \<open>Inl\<close> is the error thrown, \<open>Inr\<close> the
  value returned. \<open>bindE\<close> runs the next step unless the first one threw; \<open>mapE\<close> is
  \<^verbatim>\<open>Array.prototype.map\<close> with a callback that may throw.
\<close>

definition bindE :: "error + 'a \<Rightarrow> ('a \<Rightarrow> error + 'b) \<Rightarrow> error + 'b" where
  "bindE m f = (case m of Inl e \<Rightarrow> Inl e | Inr x \<Rightarrow> f x)"

primrec mapE :: "('a \<Rightarrow> error + 'b) \<Rightarrow> 'a list \<Rightarrow> error + 'b list" where
  "mapE f [] = Inr []"
| "mapE f (x # xs) = bindE (f x) (\<lambda>y. bindE (mapE f xs) (\<lambda>ys. Inr (y # ys)))"

text \<open>
  What the engine provides and the repository does not define is a parameter of the model:
  the formatting of a number that is not a safe integer, the value \<^verbatim>\<open>parseFloat\<close> gives a
  string that starts with a decimal literal, the
  \<^verbatim>\<open>URL\<close> constructor (\<open>None\<close> when it throws), the \<^verbatim>\<open>Date\<close> constructor on a string
  (the time value in milliseconds, \<open>None\<close> for an invalid date), the local-time year and
  month of a time value, and \<^verbatim>\<open>toISOString\<close>.
\<close>

record URL =
  protocol :: string
  hostname :: string
  href :: string

record platform =
  Number_fmt :: "rat \<Rightarrow> string"
  parseFloat_str :: "string \<Rightarrow> jsnum"
  URL_new :: "string \<Rightarrow> URL option"
  Date_new :: "string \<Rightarrow> int option"
  getFullYear :: "int \<Rightarrow> int"
  getMonth :: "int \<Rightarrow> int"
  toISOString :: "int \<Rightarrow> string"

subsection \<open>Strings and numbers\<close>

definition isWhiteSpace :: "char \<Rightarrow> bool" where
  \<comment> \<open>white space and line terminators among the code units below 256\<close>
  "isWhiteSpace c =
     (c \<in> set [CHR 0x09, CHR 0x0A, CHR 0x0B, CHR 0x0C, CHR 0x0D, CHR 0x20, CHR 0xA0])"

definition trim :: "string \<Rightarrow> string" where
  "trim s = rev (dropWhile isWhiteSpace (rev (dropWhile isWhiteSpace s)))"

definition endsWith :: "string \<Rightarrow> string \<Rightarrow> bool" where
  "endsWith s t = (length t \<le> length s \<and> drop (length s - length t) s = t)"

definition isDigit :: "char \<Rightarrow> bool" where
  "isDigit c = (c \<in> set ''0123456789'')"

definition digitVal :: "char \<Rightarrow> int" where
  "digitVal c = of_char c - 48"

definition digitsVal :: "string \<Rightarrow> int" where
  "digitsVal s = foldl (\<lambda>a c. 10 * a + digitVal c) 0 s"

definition digitChar :: "nat \<Rightarrow> char" where
  "digitChar d = ''0123456789'' ! d"

function showNat :: "nat \<Rightarrow> string" where
  "showNat n = (if n < 10 then [digitChar n] else showNat (n div 10) @ [digitChar (n mod 10)])"
  by pat_completeness auto
termination
  by (relation "measure id") auto

declare showNat.simps [simp del]

definition showInt :: "int \<Rightarrow> string" where
  "showInt i = (if i < 0 then CHR ''-'' # showNat (nat (- i)) else showNat (nat i))"

definition Number_toString :: "platform \<Rightarrow> jsnum \<Rightarrow> string" where
  \<comment> \<open>An integer of magnitude at most \<open>2^53\<close> prints as its decimal numeral.\<close>
  "Number_toString P x =
     (case x of
        NaN \<Rightarrow> ''NaN''
      | PosInfinity \<Rightarrow> ''Infinity''
      | NegInfinity \<Rightarrow> ''-Infinity''
      | Fin q \<Rightarrow>
          if q = of_int \<lfloor>q\<rfloor> \<and> \<bar>q\<bar> \<le> 2 ^ 53 then showInt \<lfloor>q\<rfloor> else Number_fmt P q)"

fun join_comma :: "string list \<Rightarrow> string" where
  "join_comma [] = []"
| "join_comma [s] = s"
| "join_comma (s # t # ss) = s @ '','' @ join_comma (t # ss)"

text \<open>
  The conversion to a string that \<^verbatim>\<open>parseInt\<close> and \<^verbatim>\<open>parseFloat\<close> apply to their argument.
  An array joins the conversions of its elements with commas, \<^verbatim>\<open>null\<close> and
  \<^verbatim>\<open>undefined\<close> elements as empty strings; the first element that throws ends it.
\<close>

fun ToString :: "platform \<Rightarrow> js_value \<Rightarrow> error + string"
  and ToString_elements :: "platform \<Rightarrow> js_value list \<Rightarrow> error + string list" where
  "ToString P JUndefined = Inr ''undefined''"
| "ToString P JNull = Inr ''null''"
| "ToString P (JBool b) = Inr (if b then ''true'' else ''false'')"
| "ToString P (JNum x) = Inr (Number_toString P x)"
| "ToString P (JStr s) = Inr s"
| "ToString P JSymbol = Inl TypeError"
| "ToString P (JObj conversion) = conversion"
| "ToString P (JArr vs) = bindE (ToString_elements P vs) (\<lambda>ss. Inr (join_comma ss))"
| "ToString_elements P [] = Inr []"
| "ToString_elements P (v # vs) =
     bindE (case v of JUndefined \<Rightarrow> Inr [] | JNull \<Rightarrow> Inr [] | _ \<Rightarrow> ToString P v)
       (\<lambda>s. bindE (ToString_elements P vs) (\<lambda>ss. Inr (s # ss)))"

fun truthy :: "js_value \<Rightarrow> bool" where
  "truthy JUndefined = False"
| "truthy JNull = False"
| "truthy (JBool b) = b"
| "truthy (JNum x) = (x \<noteq> NaN \<and> x \<noteq> Fin 0)"
| "truthy (JStr s) = (s \<noteq> [])"
| "truthy JSymbol = True"
| "truthy (JObj conversion) = True"
| "truthy (JArr vs) = True"

definition parseInt10 :: "string \<Rightarrow> int option" where
  \<comment> \<open>\<^verbatim>\<open>parseInt(s, 10)\<close>: leading white space, a sign, the longest run of digits;
      \<open>None\<close> is NaN. The result is the exact integer: it is only compared with bounds
      of magnitude below \<open>2^53\<close>, where rounding to a double changes no comparison.\<close>
  "parseInt10 s =
     (let s1 = dropWhile isWhiteSpace s;
          sign = (case s1 of c # r \<Rightarrow> if c = CHR ''-'' then - 1 else 1 | [] \<Rightarrow> 1);
          s2 = (case s1 of c # r \<Rightarrow> if c = CHR ''-'' \<or> c = CHR ''+'' then r else s1 | [] \<Rightarrow> s1);
          z = takeWhile isDigit s2
      in if z = [] then None else Some (sign * digitsVal z))"

definition startsDecimalLiteral :: "string \<Rightarrow> bool" where
  \<comment> \<open>some prefix is a decimal literal: after an optional sign, a digit, a point and a
      digit, or \<^verbatim>\<open>Infinity\<close>\<close>
  "startsDecimalLiteral s =
     (let u = (case s of c # r \<Rightarrow> if c = CHR ''+'' \<or> c = CHR ''-'' then r else s | [] \<Rightarrow> s)
      in case u of
           c # r \<Rightarrow>
             isDigit c \<or> (c = CHR ''.'' \<and> (case r of d # _ \<Rightarrow> isDigit d | [] \<Rightarrow> False)) \<or>
             take 8 u = ''Infinity''
         | [] \<Rightarrow> False)"

definition parseFloat :: "platform \<Rightarrow> string \<Rightarrow> jsnum" where
  \<comment> \<open>\<^verbatim>\<open>parseFloat\<close>: leading white space goes; NaN unless a decimal literal starts the
      rest, whose value the host computes\<close>
  "parseFloat P s =
     (let t = dropWhile isWhiteSpace s
      in if startsDecimalLiteral t then parseFloat_str P t else NaN)"

section \<open>Field validators\<close>

definition dangerous :: "char list" where
  \<comment> \<open>the class \<^verbatim>\<open>[<>"'&]\<close>\<close>
  "dangerous = [CHR ''<'', CHR ''>'', CHR 0x22, CHR 0x27, CHR ''&'']"

text \<open>
  \<open>None\<close> is the sentinel \<^verbatim>\<open>null\<close>. Every call in the file passes the bounds, so the
  default arguments (255, the infinities) are not modelled; the bounds of the integer
  validator are integers, those of the number validator doubles. The string, date and URL
  validators test \<^verbatim>\<open>typeof\<close> before anything else and have no statement that can throw
  outside a \<^verbatim>\<open>try\<close>; the number and integer validators hand their argument to
  \<^verbatim>\<open>parseFloat\<close> and \<^verbatim>\<open>parseInt\<close>, whose conversion to a string may throw.
\<close>

definition validateString :: "js_value \<Rightarrow> nat \<Rightarrow> string option" where
  "validateString v maxLength =
     (case v of
        JStr s \<Rightarrow> Some (take maxLength (trim (filter (\<lambda>c. c \<notin> set dangerous) s)))
      | _ \<Rightarrow> None)"

definition validateNumber ::
  "platform \<Rightarrow> js_value \<Rightarrow> rat \<Rightarrow> rat \<Rightarrow> error + rat option" where
  "validateNumber P v min_v max_v =
     bindE (ToString P v) (\<lambda>s.
       Inr (case parseFloat P s of
              Fin num \<Rightarrow> if num < min_v \<or> num > max_v then None else Some num
            | _ \<Rightarrow> None))"

definition validateInteger ::
  "platform \<Rightarrow> js_value \<Rightarrow> int \<Rightarrow> int \<Rightarrow> error + int option" where
  "validateInteger P v min_v max_v =
     bindE (ToString P v) (\<lambda>s.
       Inr (case parseInt10 s of
              None \<Rightarrow> None
            | Some num \<Rightarrow> if num < min_v \<or> num > max_v then None else Some num))"

definition dateRegex :: "string \<Rightarrow> bool" where
  \<comment> \<open>\<^verbatim>\<open>/^\d{4}-\d{2}-\d{2}$/\<close>\<close>
  "dateRegex s =
     (case s of
        [y1, y2, y3, y4, d1, m1, m2, d2, t1, t2] \<Rightarrow>
          isDigit y1 \<and> isDigit y2 \<and> isDigit y3 \<and> isDigit y4 \<and> d1 = CHR ''-'' \<and>
          isDigit m1 \<and> isDigit m2 \<and> d2 = CHR ''-'' \<and> isDigit t1 \<and> isDigit t2
      | _ \<Rightarrow> False)"

definition validateDate :: "platform \<Rightarrow> js_value \<Rightarrow> int option" where
  \<comment> \<open>the result is the time value of the date\<close>
  "validateDate P v =
     (case v of
        JStr dateString \<Rightarrow>
          if dateString = [] then None
          else if \<not> dateRegex dateString then None
          else (case Date_new P dateString of
                  None \<Rightarrow> None
                | Some t \<Rightarrow>
                    if getFullYear P t < 1900 \<or> getFullYear P t > 2030 then None else Some t)
      | _ \<Rightarrow> None)"

definition validateURL :: "platform \<Rightarrow> js_value \<Rightarrow> string option" where
  "validateURL P v =
     (case v of
        JStr urlString \<Rightarrow>
          if urlString = [] then None
          else (case URL_new P urlString of
                  None \<Rightarrow> None
                | Some url \<Rightarrow>
                    if protocol url = ''https:'' \<and> endsWith (hostname url) ''sec.gov''
                    then Some (href url) else None)
      | _ \<Rightarrow> None)"

section \<open>Records of the pipeline\<close>

text \<open>
  A CombinedRecord is only built from a valid date (the join returns early otherwise), so
  its \<open>date\<close> is a time value. The dataset's \<open>groupedData\<close> object is the list of its own
  properties in creation order, each key once.
\<close>

record CombinedRecord =
  id_c :: string
  company :: string
  symbol :: string
  cik :: string
  year :: int
  quarter :: int
  date :: int
  dateString :: string
  quarterLabel :: string
  ccp :: rat
  ltd :: rat
  formName :: string
  formURL :: string

type_synonym grouped = "(string \<times> CombinedRecord list) list"

definition isArrayIndex :: "string \<Rightarrow> bool" where
  \<comment> \<open>a canonical numeric string below \<open>2^32 - 1\<close>\<close>
  "isArrayIndex k =
     (k \<noteq> [] \<and> list_all isDigit k \<and> (hd k \<noteq> CHR ''0'' \<or> k = ''0'') \<and> digitsVal k < 2 ^ 32 - 1)"

definition Object_entries :: "(string \<times> 'a) list \<Rightarrow> (string \<times> 'a) list" where
  \<comment> \<open>The order of \<^verbatim>\<open>Object.keys\<close>: array indices ascending, then the other keys in
      creation order.\<close>
  "Object_entries obj =
     sort_key (\<lambda>(k, v). digitsVal k) (filter (\<lambda>(k, v). isArrayIndex k) obj) @
     filter (\<lambda>(k, v). \<not> isArrayIndex k) obj"

definition Object_keys :: "(string \<times> 'a) list \<Rightarrow> string list" where
  "Object_keys obj = map fst (Object_entries obj)"

section \<open>The filter\<close>

text \<open>
  \<^verbatim>\<open>sort\<close> is stable, and the comparator \<^verbatim>\<open>new Date(a.date) - new Date(b.date)\<close> is the
  difference of two time values: the call is \<open>sort_key date\<close>. Errors are values: \<open>Inl\<close>
  is a \<^verbatim>\<open>throw\<close>.
\<close>

definition defaultArg :: "js_value \<Rightarrow> js_value \<Rightarrow> js_value" where
  \<comment> \<open>a parameter with a default value: the default replaces \<^verbatim>\<open>undefined\<close>\<close>
  "defaultArg v d = (if v = JUndefined then d else v)"

definition falsyInt :: "int option \<Rightarrow> bool" where
  \<comment> \<open>\<^verbatim>\<open>!v\<close> for a validated integer: null or zero\<close>
  "falsyInt v = (case v of None \<Rightarrow> True | Some n \<Rightarrow> n = 0)"

definition truthyStr :: "string option \<Rightarrow> bool" where
  \<comment> \<open>\<^verbatim>\<open>Boolean(v)\<close> for a validated string: neither null nor empty\<close>
  "truthyStr v = (case v of None \<Rightarrow> False | Some s \<Rightarrow> s \<noteq> [])"

definition inRange :: "int \<Rightarrow> int \<Rightarrow> int \<Rightarrow> int \<Rightarrow> CombinedRecord \<Rightarrow> bool" where
  \<comment> \<open>the callback of \<^verbatim>\<open>groupedData[company].filter\<close>\<close>
  "inRange validStartYear validEndYear validStartQuarter validEndQuarter item =
     (let isInYearRange = (year item \<ge> validStartYear \<and> year item \<le> validEndYear)
      in if year item = validStartYear \<and> year item = validEndYear
         then isInYearRange \<and> quarter item \<ge> validStartQuarter \<and> quarter item \<le> validEndQuarter
         else if year item = validStartYear
         then isInYearRange \<and> quarter item \<ge> validStartQuarter
         else if year item = validEndYear
         then isInYearRange \<and> quarter item \<le> validEndQuarter
         else isInYearRange)"

definition sanitizeCompanies :: "js_value list \<Rightarrow> string list" where
  "sanitizeCompanies selectedCompanies =
     map the (filter truthyStr (map (\<lambda>company. validateString company 200) selectedCompanies))"

definition collect ::
  "grouped \<Rightarrow> string list \<Rightarrow> (CombinedRecord \<Rightarrow> bool) \<Rightarrow> CombinedRecord list" where
  \<comment> \<open>the \<^verbatim>\<open>forEach\<close> over \<^verbatim>\<open>Object.keys(groupedData)\<close> that fills \<^verbatim>\<open>filtered\<close>\<close>
  "collect groupedData sanitizedCompanies p =
     concat (map (\<lambda>(company, items). filter p items)
       (filter (\<lambda>(company, items). sanitizedCompanies = [] \<or> company \<in> set sanitizedCompanies)
          (Object_entries groupedData)))"

definition secureFilterData ::
  "platform \<Rightarrow> grouped \<Rightarrow> js_value \<Rightarrow> js_value \<Rightarrow> js_value \<Rightarrow> js_value \<Rightarrow> js_value
     \<Rightarrow> error + CombinedRecord list" where
  "secureFilterData P groupedData selectedCompanies startYear endYear startQuarter endQuarter =
     bindE (validateInteger P startYear 1900 2030) (\<lambda>validStartYear.
     bindE (validateInteger P endYear 1900 2030) (\<lambda>validEndYear.
     bindE (validateInteger P (defaultArg startQuarter (JNum (Fin 1))) 1 4) (\<lambda>validStartQuarter.
     bindE (validateInteger P (defaultArg endQuarter (JNum (Fin 4))) 1 4) (\<lambda>validEndQuarter.
       if falsyInt validStartYear \<or> falsyInt validEndYear \<or>
          falsyInt validStartQuarter \<or> falsyInt validEndQuarter
       then Inl (Error ''Invalid filter parameters'')
       else if the validStartYear > the validEndYear
       then Inl (Error ''Start year cannot be after end year'')
       else (case selectedCompanies of
               JArr sel \<Rightarrow>
                 if length sel > 50 then Inl (Error ''Too many companies selected'')
                 else
                   (let filtered = collect groupedData (sanitizeCompanies sel)
                          (inRange (the validStartYear) (the validEndYear)
                             (the validStartQuarter) (the validEndQuarter))
                    in if length filtered > 5000
                       then Inr (sort_key date (take 5000 filtered))
                       else Inr (sort_key date filtered))
             | _ \<Rightarrow> Inl (Error ''Selected companies must be an array''))))))"

section \<open>Record sanitizers\<close>

text \<open>
  A parsed CSV row is an object from column names to cells. The parser is run with a header
  and without dynamic typing: every cell is a string, and a column that is absent reads as
  \<^verbatim>\<open>undefined\<close>.
\<close>

type_synonym row = "string \<rightharpoonup> string"

definition field :: "row \<Rightarrow> string \<Rightarrow> js_value" where
  \<comment> \<open>the property access \<^verbatim>\<open>row.Column\<close>\<close>
  "field row column = (case row column of None \<Rightarrow> JUndefined | Some s \<Rightarrow> JStr s)"

record Stock =
  symbol_s :: string
  companyName :: string
  cik_s :: string

record Form =
  id_f :: string
  formName_f :: string
  cik_f :: string
  valueDate :: string
  filingDate :: string
  formURL_f :: string

record Task =
  formId :: string
  ccp_t :: rat
  ltd_t :: rat
  textListLen :: "int option"
  tableIndex :: "int option"
  sumDivider :: "rat option"
  jsonTable :: "int option"
  valueColumn :: "int option"

definition MAX_ROWS :: int where
  "MAX_ROWS = 10000"

definition MAX_SAFE_INTEGER :: rat where
  "MAX_SAFE_INTEGER = 9007199254740991"

definition sanitizeStockData :: "platform \<Rightarrow> row \<Rightarrow> error + Stock option" where
  "sanitizeStockData P row =
     (let symbol = validateString (field row ''Symbol'') 10;
          companyName = validateString (field row ''CompanyName'') 200
      in bindE (validateInteger P (field row ''CIK'') 1 9999999999) (\<lambda>cik.
           Inr (if \<not> truthyStr symbol \<or> \<not> truthyStr companyName \<or> falsyInt cik then None
                else Some \<lparr>symbol_s = the symbol, companyName = the companyName,
                           cik_s = showInt (the cik)\<rparr>)))"

definition isoDate :: "platform \<Rightarrow> int \<Rightarrow> string" where
  \<comment> \<open>\<^verbatim>\<open>d.toISOString().split('T')[0]\<close>\<close>
  "isoDate P t = takeWhile (\<lambda>c. c \<noteq> CHR ''T'') (toISOString P t)"

definition sanitizeFormData :: "platform \<Rightarrow> row \<Rightarrow> error + Form option" where
  "sanitizeFormData P row =
     bindE (validateInteger P (field row ''id'') 1 MAX_ROWS) (\<lambda>id.
     (let formName = validateString (field row ''FormName'') 100
      in bindE (validateInteger P (field row ''CIK'') 1 9999999999) (\<lambda>cik.
         (let valueDate = validateDate P (field row ''ValueDate'');
              filingDate = validateDate P (field row ''FilingDate'');
              formURL = validateURL P (field row ''FormURL'')
          in Inr (if falsyInt id \<or> \<not> truthyStr formName \<or> falsyInt cik \<or> valueDate = None \<or>
                     filingDate = None \<or> \<not> truthyStr formURL then None
                  else Some \<lparr>id_f = showInt (the id), formName_f = the formName,
                             cik_f = showInt (the cik), valueDate = isoDate P (the valueDate),
                             filingDate = isoDate P (the filingDate),
                             formURL_f = the formURL\<rparr>)))))"

definition sanitizeTaskData :: "platform \<Rightarrow> row \<Rightarrow> error + Task option" where
  \<comment> \<open>The lower bound of the divisor is the double written \<^verbatim>\<open>0.001\<close>.\<close>
  "sanitizeTaskData P row =
     bindE (validateInteger P (field row ''Form_id'') 1 MAX_ROWS) (\<lambda>formId.
     bindE (validateNumber P (field row ''CCP'') 0 MAX_SAFE_INTEGER) (\<lambda>ccp.
     bindE (validateNumber P (field row ''LTD'') 0 MAX_SAFE_INTEGER) (\<lambda>ltd.
     bindE (if truthy (field row ''TextListLen'')
            then validateInteger P (field row ''TextListLen'') 0 1000 else Inr None) (\<lambda>textListLen.
     bindE (if truthy (field row ''TableIndex'')
            then validateInteger P (field row ''TableIndex'') 0 100 else Inr None) (\<lambda>tableIndex.
     bindE (if truthy (field row ''SumDivider'')
            then validateNumber P (field row ''SumDivider'')
                   (1152921504606847 / 1152921504606846976) 10000
            else Inr (Some 1)) (\<lambda>sumDivider.
     bindE (if truthy (field row ''JsonTable'')
            then validateInteger P (field row ''JsonTable'') 0 1 else Inr None) (\<lambda>jsonTable.
     bindE (if truthy (field row ''ValueColumn'')
            then validateInteger P (field row ''ValueColumn'') 0 10 else Inr None) (\<lambda>valueColumn.
       Inr (if formId = None \<or> ccp = None \<or> ltd = None then None
            else Some \<lparr>formId = showInt (the formId), ccp_t = the ccp, ltd_t = the ltd,
                       textListLen = textListLen, tableIndex = tableIndex,
                       sumDivider = sumDivider, jsonTable = jsonTable,
                       valueColumn = valueColumn\<rparr>)))))))))"

section \<open>Join and aggregation\<close>

definition filterBoolean :: "'a option list \<Rightarrow> 'a list" where
  \<comment> \<open>\<^verbatim>\<open>.filter(Boolean)\<close> on sanitized records: the nulls go\<close>
  "filterBoolean xs = map the (filter (\<lambda>x. x \<noteq> None) xs)"

definition stocksMap :: "Stock list \<Rightarrow> (string \<rightharpoonup> Stock)" where
  "stocksMap sanitizedStocks = foldl (\<lambda>m stock. m(cik_s stock \<mapsto> stock)) Map.empty sanitizedStocks"

definition formsMap :: "Form list \<Rightarrow> (string \<rightharpoonup> Form)" where
  "formsMap sanitizedForms = foldl (\<lambda>m form. m(id_f form \<mapsto> form)) Map.empty sanitizedForms"

definition combine ::
  "platform \<Rightarrow> (string \<rightharpoonup> Stock) \<Rightarrow> (string \<rightharpoonup> Form) \<Rightarrow> Task \<Rightarrow> CombinedRecord option" where
  \<comment> \<open>The callback of \<^verbatim>\<open>sanitizedTasks.forEach\<close> after the duplicate check; \<open>None\<close>
      is an early return.\<close>
  "combine P stocks forms task =
     (case forms (formId task) of
        None \<Rightarrow> None
      | Some form \<Rightarrow>
          (case stocks (cik_f form) of
             None \<Rightarrow> None
           | Some stock \<Rightarrow>
               (case Date_new P (valueDate form) of
                  None \<Rightarrow> None
                | Some valueDate' \<Rightarrow>
                    (let year = getFullYear P valueDate';
                         month = getMonth P valueDate';
                         quarter = \<lceil>rat_of_int (month + 1) / 3\<rceil>
                     in if ccp_t task < 0 \<or> ltd_t task < 0 then None
                        else if ccp_t task > 10 ^ 12 \<or> ltd_t task > 10 ^ 12 then None
                        else Some \<lparr>id_c = formId task, company = companyName stock,
                                   symbol = symbol_s stock, cik = cik_s stock, year = year,
                                   quarter = quarter, date = valueDate',
                                   dateString = Form.valueDate form,
                                   quarterLabel = ''Q'' @ showInt quarter @ '' '' @ showInt year,
                                   ccp = ccp_t task, ltd = ltd_t task,
                                   formName = formName_f form, formURL = formURL_f form\<rparr>))))"

fun joinTasks ::
  "platform \<Rightarrow> (string \<rightharpoonup> Stock) \<Rightarrow> (string \<rightharpoonup> Form) \<Rightarrow> Task list \<Rightarrow> string set
     \<Rightarrow> CombinedRecord list \<Rightarrow> CombinedRecord list" where
  "joinTasks P stocks forms [] processedFormIds combinedData = combinedData"
| "joinTasks P stocks forms (task # tasks) processedFormIds combinedData =
     (if formId task \<in> processedFormIds
      then joinTasks P stocks forms tasks processedFormIds combinedData
      else joinTasks P stocks forms tasks (insert (formId task) processedFormIds)
             (case combine P stocks forms task of
                None \<Rightarrow> combinedData
              | Some item \<Rightarrow> combinedData @ [item]))"

definition Object_prototype_names :: "string list" where
  \<comment> \<open>the properties every object literal inherits\<close>
  "Object_prototype_names =
     [''constructor'', ''__defineGetter__'', ''__defineSetter__'', ''hasOwnProperty'',
      ''__lookupGetter__'', ''__lookupSetter__'', ''isPrototypeOf'', ''propertyIsEnumerable'',
      ''toString'', ''valueOf'', ''__proto__'', ''toLocaleString'']"

fun groupByCompany :: "grouped \<Rightarrow> CombinedRecord list \<Rightarrow> error + grouped" where
  \<comment> \<open>An inherited property is truthy and has no \<^verbatim>\<open>push\<close>: the call throws.\<close>
  "groupByCompany groupedData [] = Inr groupedData"
| "groupByCompany groupedData (item # items) =
     (if company item \<in> set Object_prototype_names then Inl TypeError
      else (case map_of groupedData (company item) of
              None \<Rightarrow> groupByCompany (groupedData @ [(company item, [item])]) items
            | Some _ \<Rightarrow>
                groupByCompany
                  (map (\<lambda>(k, v). if k = company item then (k, v @ [item]) else (k, v)) groupedData)
                  items))"

record dataQuality =
  stocksSanitized :: nat
  formsSanitized :: nat
  tasksSanitized :: nat
  originalStocks :: nat
  originalForms :: nat
  originalTasks :: nat

record Dataset =
  combinedData :: "CombinedRecord list"
  groupedData :: grouped
  companies :: "string list"
  dateRange_min :: int
  dateRange_max :: int
  totalRecords :: nat
  companiesCount :: nat
  yearsSpan :: nat
  quality :: dataQuality

definition processRows :: "platform \<Rightarrow> row list \<Rightarrow> row list \<Rightarrow> row list \<Rightarrow> error + Dataset" where
  \<comment> \<open>the body of the \<^verbatim>\<open>try\<close> block, from the three loaded tables on\<close>
  "processRows P stocksData formsData tasksData =
     bindE (mapE (sanitizeStockData P) stocksData) (\<lambda>stocks.
     bindE (mapE (sanitizeFormData P) formsData) (\<lambda>forms.
     bindE (mapE (sanitizeTaskData P) tasksData) (\<lambda>tasks.
     (let sanitizedStocks = filterBoolean stocks;
          sanitizedForms = filterBoolean forms;
          sanitizedTasks = filterBoolean tasks
      in if length sanitizedStocks > 1000 then Inl (Error ''Too many stock records'')
         else if length sanitizedForms > 5000 then Inl (Error ''Too many form records'')
         else if length sanitizedTasks > 10000 then Inl (Error ''Too many task records'')
         else
           (let joined = joinTasks P (stocksMap sanitizedStocks) (formsMap sanitizedForms)
                           sanitizedTasks {} []
            in if length joined = 0
               then Inl (Error ''No valid data after processing and validation'')
               else
                 (let combinedData = sort_key date joined
                  in case groupByCompany [] combinedData of
                       Inl e \<Rightarrow> Inl e
                     | Inr groupedData' \<Rightarrow>
                         (let companies = sort (Object_keys groupedData');
                              years = sort (remdups (map year combinedData))
                          in if length companies = 0 \<or> length years = 0
                             then Inl (Error ''No companies or years found in processed data'')
                             else Inr \<lparr>combinedData = combinedData, groupedData = groupedData',
                                        companies = companies,
                                        dateRange_min = Min (set years),
                                        dateRange_max = Max (set years),
                                        totalRecords = length combinedData,
                                        companiesCount = length companies,
                                        yearsSpan = length years,
                                        quality =
                                          \<lparr>stocksSanitized = length sanitizedStocks,
                                           formsSanitized = length sanitizedForms,
                                           tasksSanitized = length sanitizedTasks,
                                           originalStocks = length stocksData,
                                           originalForms = length formsData,
                                           originalTasks = length tasksData\<rparr>\<rparr>)))))))"

definition processSecureFinancialData ::
  "platform \<Rightarrow> row list \<Rightarrow> row list \<Rightarrow> row list \<Rightarrow> error + Dataset" where
  \<comment> \<open>The \<^verbatim>\<open>catch\<close> rethrows every error as \<^verbatim>\<open>Data processing failed: ...\<close>.\<close>
  "processSecureFinancialData P stocksData formsData tasksData =
     (case processRows P stocksData formsData tasksData of
        Inl e \<Rightarrow> Inl (Failed e)
      | Inr dataset \<Rightarrow> Inr dataset)"

section \<open>The specification's predicates\<close>


text \<open>
  An entry of a selection survives sanitization: a string that does not sanitize to the
  empty string.
\<close>

definition keeps :: "js_value \<Rightarrow> bool" where
  "keeps v = truthyStr (validateString v 200)"



text \<open>
  A value has a conversion to a string: it is not a Symbol, not an object whose conversion
  throws, and not an array that holds such a value.
\<close>

fun convertible :: "js_value \<Rightarrow> bool" where
  "convertible JSymbol = False"
| "convertible (JObj conversion) = (case conversion of Inl e \<Rightarrow> False | Inr s \<Rightarrow> True)"
| "convertible (JArr vs) = list_all convertible vs"
| "convertible v = True"

text \<open>The year a date string of the form \<^verbatim>\<open>YYYY-MM-DD\<close> writes.\<close>

definition writtenYear :: "string \<Rightarrow> int" where
  "writtenYear s = digitsVal (take 4 s)"

text \<open>
  The trusted registry domain in the words of the specification: \<^verbatim>\<open>sec.gov\<close> itself or a
  subdomain of it.
\<close>

definition trustedHost :: "string \<Rightarrow> bool" where
  "trustedHost h = (h = ''sec.gov'' \<or> endsWith h ''.sec.gov'')"

text \<open>
  A metric record fails to join: no matching filing, no matching company, an invalid date,
  or a figure outside \<open>[0, 10^12]\<close>.
\<close>

definition joinFails ::
  "platform \<Rightarrow> (string \<rightharpoonup> Stock) \<Rightarrow> (string \<rightharpoonup> Form) \<Rightarrow> Task \<Rightarrow> bool" where
  "joinFails P stocks forms task =
     (forms (formId task) = None \<or>
      (\<exists>form. forms (formId task) = Some form \<and> stocks (cik_f form) = None) \<or>
      (\<exists>form. forms (formId task) = Some form \<and> Date_new P (valueDate form) = None) \<or>
      ccp_t task < 0 \<or> ccp_t task > 10 ^ 12 \<or> ltd_t task < 0 \<or> ltd_t task > 10 ^ 12)"

text \<open>
  A grouping of a sequence of records by company: each key once, each group the records of
  its company in their order, a key for every company that occurs.
\<close>

definition groups_of :: "grouped \<Rightarrow> CombinedRecord list \<Rightarrow> bool" where
  "groups_of g items =
     (distinct (map fst g) \<and>
      (\<forall>(k, rs)\<in>set g. rs = filter (\<lambda>r. company r = k) items) \<and>
      fst ` set g = company ` set items)"

section \<open>Example data\<close>

text \<open>
  The closed examples below run on a host that is described at the arguments they use and
  only there: the dates are parsed and read in UTC, the two URLs parse as the URL standard
  says, the three decimal literals convert to the numbers they denote. Elsewhere its
  answers are placeholders (not-a-number, a thrown error, an invalid date) that no example
  reads.
\<close>

definition exampleDates :: "(string \<times> int \<times> int \<times> int) list" where
  "exampleDates =
     [(''2023-12-30'', 1703894400000, 2023, 11), (''2023-09-30'', 1696032000000, 2023, 8)]"

definition exampleHost :: platform where
  "exampleHost =
     \<lparr>Number_fmt = (\<lambda>q. []),
      parseFloat_str =
        (\<lambda>s. case map_of [(''0'', Fin 0), (''73100.0'', Fin 73100), (''106042.0'', Fin 106042)] s of
               Some x \<Rightarrow> x | None \<Rightarrow> NaN),
      URL_new =
        map_of
          [(''https://sec.gov/x'',
            \<lparr>protocol = ''https:'', hostname = ''sec.gov'', href = ''https://sec.gov/x''\<rparr>),
           (''https://evilsec.gov/x'',
            \<lparr>protocol = ''https:'', hostname = ''evilsec.gov'', href = ''https://evilsec.gov/x''\<rparr>)],
      Date_new = (\<lambda>s. map_option fst (map_of exampleDates s)),
      getFullYear =
        (\<lambda>t. case find (\<lambda>(s, ms, y, m). ms = t) exampleDates of
               Some (s, ms, y, m) \<Rightarrow> y | None \<Rightarrow> 1970),
      getMonth =
        (\<lambda>t. case find (\<lambda>(s, ms, y, m). ms = t) exampleDates of
               Some (s, ms, y, m) \<Rightarrow> m | None \<Rightarrow> 0),
      toISOString =
        (\<lambda>t. case find (\<lambda>(s, ms, y, m). ms = t) exampleDates of
               Some (s, ms, y, m) \<Rightarrow> s @ ''T00:00:00.000Z''
             | None \<Rightarrow> ''1970-01-01T00:00:00.000Z'')\<rparr>"

text \<open>
  A host five hours west of Greenwich, described at one date: the date-only string is
  parsed as midnight UTC, and the local-time year of that instant is the year before.
\<close>

definition westHost :: platform where
  "westHost =
     exampleHost
       \<lparr>Date_new := (\<lambda>s. if s = ''2031-01-01'' then Some 1924992000000 else None),
        getFullYear := (\<lambda>t. if t = 1924992000000 then 2030 else 1969),
        getMonth := (\<lambda>t. 11),
        toISOString :=
          (\<lambda>t. if t = 1924992000000 then ''2031-01-01T00:00:00.000Z''
               else ''1970-01-01T00:00:00.000Z'')\<rparr>"

definition quarterRecord :: "string \<Rightarrow> string \<Rightarrow> int \<Rightarrow> int \<Rightarrow> int \<Rightarrow> string \<Rightarrow> CombinedRecord" where
  "quarterRecord i c y q t d =
     \<lparr>id_c = i, company = c, symbol = take 4 c, cik = ''320193'', year = y, quarter = q,
      date = t, dateString = d, quarterLabel = ''Q'' @ showInt q @ '' '' @ showInt y,
      ccp = 73100, ltd = 106042, formName = ''10-Q'', formURL = ''https://sec.gov/x''\<rparr>"

definition lateRecs :: "CombinedRecord list" where
  "lateRecs =
     map (\<lambda>i. quarterRecord (showNat i) ''Acme Corp'' 2021 1 1617148800000 ''2021-03-31'')
       [1..<5001]"

definition earlyRec :: CombinedRecord where
  "earlyRec = quarterRecord ''5001'' ''Zeta Inc'' 2021 1 1612051200000 ''2021-01-31''"

definition capData :: grouped where
  "capData = [(''Acme Corp'', lateRecs), (''Zeta Inc'', [earlyRec])]"

definition quarterData :: grouped where
  "quarterData =
     [(''Apple Inc.'',
       [quarterRecord ''1'' ''Apple Inc.'' 2020 1 1585612800000 ''2020-03-31'',
        quarterRecord ''2'' ''Apple Inc.'' 2020 2 1593475200000 ''2020-06-30'',
        quarterRecord ''3'' ''Apple Inc.'' 2020 3 1601424000000 ''2020-09-30'',
        quarterRecord ''4'' ''Apple Inc.'' 2020 4 1609372800000 ''2020-12-31'']),
      (''Zeta Inc'',
       [quarterRecord ''5'' ''Zeta Inc'' 2019 4 1577750400000 ''2019-12-31'',
        quarterRecord ''6'' ''Zeta Inc'' 2020 4 1609372800000 ''2020-12-31''])]"

definition manyCompanies :: grouped where
  "manyCompanies =
     map (\<lambda>i. (''Company '' @ showNat i,
               [quarterRecord (showNat i) (''Company '' @ showNat i) 2020 4 1609372800000 ''2020-12-31'']))
       [1..<52]"


definition mixedSelection :: "js_value list" where
  "mixedSelection = [JNull, JStr ''  Zeta <Inc>'', JSymbol]"

definition mkRow :: "(string \<times> string) list \<Rightarrow> row" where
  "mkRow cells = map_of cells"

definition zeroTaskRow :: row where
  "zeroTaskRow =
     mkRow [(''Form_id'', ''1''), (''TextListLen'', ''abc''), (''TableIndex'', ''''),
            (''SumDivider'', ''0''), (''JsonTable'', ''7''), (''CCP'', ''0''), (''LTD'', ''0'')]"

definition stockRows :: "row list" where
  "stockRows =
     [mkRow [(''Symbol'', ''AAPL''), (''CompanyName'', ''Apple Inc.''), (''CIK'', ''320193'')],
      mkRow [(''Symbol'', ''MSFT''), (''CompanyName'', ''Microsoft Corp''), (''CIK'', ''789019'')]]"

definition formRows :: "row list" where
  "formRows =
     [mkRow [(''id'', ''1''), (''FormName'', ''10-K''), (''CIK'', ''320193''),
             (''ValueDate'', ''2023-12-30''), (''FilingDate'', ''2023-12-30''),
             (''FormURL'', ''https://sec.gov/x'')],
      mkRow [(''id'', ''2''), (''FormName'', ''10-Q''), (''CIK'', ''789019''),
             (''ValueDate'', ''2023-09-30''), (''FilingDate'', ''2023-09-30''),
             (''FormURL'', ''https://sec.gov/x'')]]"

definition taskRows :: "row list" where
  "taskRows =
     [mkRow [(''Form_id'', ''1''), (''TextListLen'', ''''), (''TableIndex'', ''''),
             (''SumDivider'', ''''), (''JsonTable'', ''''), (''ValueColumn'', ''''),
             (''CCP'', ''73100.0''), (''LTD'', ''106042.0'')],
      mkRow [(''Form_id'', ''1''), (''TextListLen'', ''''), (''TableIndex'', ''''),
             (''SumDivider'', ''''), (''JsonTable'', ''''), (''ValueColumn'', ''''),
             (''CCP'', ''0''), (''LTD'', ''0'')],
      mkRow [(''Form_id'', ''9''), (''TextListLen'', ''''), (''TableIndex'', ''''),
             (''SumDivider'', ''''), (''JsonTable'', ''''), (''ValueColumn'', ''''),
             (''CCP'', ''0''), (''LTD'', ''0'')],
      mkRow [(''Form_id'', ''2''), (''TextListLen'', ''''), (''TableIndex'', ''''),
             (''SumDivider'', ''''), (''JsonTable'', ''''), (''ValueColumn'', ''''),
             (''CCP'', ''0''), (''LTD'', ''0'')]]"

definition appleStock :: Stock where
  "appleStock = \<lparr>symbol_s = ''AAPL'', companyName = ''Apple Inc.'', cik_s = ''320193''\<rparr>"

definition microsoftStock :: Stock where
  "microsoftStock = \<lparr>symbol_s = ''MSFT'', companyName = ''Microsoft Corp'', cik_s = ''789019''\<rparr>"

definition appleForm :: Form where
  "appleForm =
     \<lparr>id_f = ''1'', formName_f = ''10-K'', cik_f = ''320193'', valueDate = ''2023-12-30'',
      filingDate = ''2023-12-30'', formURL_f = ''https://sec.gov/x''\<rparr>"

definition microsoftForm :: Form where
  "microsoftForm =
     \<lparr>id_f = ''2'', formName_f = ''10-Q'', cik_f = ''789019'', valueDate = ''2023-09-30'',
      filingDate = ''2023-09-30'', formURL_f = ''https://sec.gov/x''\<rparr>"

definition plainTask :: "string \<Rightarrow> rat \<Rightarrow> rat \<Rightarrow> Task" where
  "plainTask f c l =
     \<lparr>formId = f, ccp_t = c, ltd_t = l, textListLen = None, tableIndex = None,
      sumDivider = Some 1, jsonTable = None, valueColumn = None\<rparr>"

definition overTask :: Task where
  "overTask = plainTask ''1'' (2 * 10 ^ 12) 106042"

definition appleRecord :: CombinedRecord where
  "appleRecord =
     \<lparr>id_c = ''1'', company = ''Apple Inc.'', symbol = ''AAPL'', cik = ''320193'', year = 2023,
      quarter = 4, date = 1703894400000, dateString = ''2023-12-30'',
      quarterLabel = ''Q4 2023'', ccp = 73100, ltd = 106042, formName = ''10-K'',
      formURL = ''https://sec.gov/x''\<rparr>"

definition microsoftRecord :: CombinedRecord where
  "microsoftRecord =
     \<lparr>id_c = ''2'', company = ''Microsoft Corp'', symbol = ''MSFT'', cik = ''789019'', year = 2023,
      quarter = 3, date = 1696032000000, dateString = ''2023-09-30'',
      quarterLabel = ''Q3 2023'', ccp = 0, ltd = 0, formName = ''10-Q'',
      formURL = ''https://sec.gov/x''\<rparr>"

definition exampleDataset :: Dataset where
  "exampleDataset =
     \<lparr>combinedData = [microsoftRecord, appleRecord],
      groupedData = [(''Microsoft Corp'', [microsoftRecord]), (''Apple Inc.'', [appleRecord])],
      companies = [''Apple Inc.'', ''Microsoft Corp''],
      dateRange_min = 2023, dateRange_max = 2023, totalRecords = 2,
      companiesCount = 2, yearsSpan = 1,
      quality =
        \<lparr>stocksSanitized = 2, formsSanitized = 2, tasksSanitized = 4,
         originalStocks = 2, originalForms = 2, originalTasks = 4\<rparr>\<rparr>"

section \<open>Properties of the field validators\<close>

lemma bindE_simps [simp]:
  "bindE (Inl e) f = Inl e"
  "bindE (Inr x) f = f x"
  by (simp_all add: bindE_def)

lemma bindE_Inr_iff:
  "bindE m f = Inr y \<longleftrightarrow> (\<exists>x. m = Inr x \<and> f x = Inr y)"
  by (cases m) simp_all

lemma bindE_Inl_iff:
  "bindE m f = Inl e \<longleftrightarrow> m = Inl e \<or> (\<exists>x. m = Inr x \<and> f x = Inl e)"
  by (cases m) simp_all

lemma ToString_convertible:
  "(\<exists>s. ToString P v = Inr s) \<longleftrightarrow> convertible v"
  "(\<exists>ss. ToString_elements P vs = Inr ss) \<longleftrightarrow> list_all convertible vs"
proof (induction P v and P vs rule: ToString_ToString_elements.induct)
  case (10 P v vs)
  then show ?case
    by (cases v) (auto simp: bindE_Inr_iff)
qed (auto simp: bindE_Inr_iff split: sum.splits)

lemma ToString_not_convertible:
  "\<not> convertible v \<Longrightarrow> \<exists>e. ToString P v = Inl e"
  using ToString_convertible(1) [of P v] by (cases "ToString P v") auto

lemma ToString_field: "\<exists>s. ToString P (field row c) = Inr s"
  by (simp add: field_def split: option.splits)

lemma validateString_length:
  "validateString v n = Some r \<Longrightarrow> length r \<le> n"
  by (auto simp: validateString_def split: js_value.splits)

lemma validateNumber_Inr:
  "validateNumber P v lo hi = Inr r \<longleftrightarrow>
     (\<exists>s. ToString P v = Inr s \<and>
        r = (case parseFloat P s of
               Fin num \<Rightarrow> if num < lo \<or> num > hi then None else Some num
             | _ \<Rightarrow> None))"
  by (auto simp: validateNumber_def bindE_Inr_iff)

lemma validateInteger_Inr:
  "validateInteger P v lo hi = Inr r \<longleftrightarrow>
     (\<exists>s. ToString P v = Inr s \<and>
        r = (case parseInt10 s of
               None \<Rightarrow> None
             | Some num \<Rightarrow> if num < lo \<or> num > hi then None else Some num))"
  by (auto simp: validateInteger_def bindE_Inr_iff)

lemma validateNumber_Inl:
  "validateNumber P v lo hi = Inl e \<longleftrightarrow> ToString P v = Inl e"
  by (auto simp: validateNumber_def bindE_Inl_iff)

lemma validateInteger_Inl:
  "validateInteger P v lo hi = Inl e \<longleftrightarrow> ToString P v = Inl e"
  by (auto simp: validateInteger_def bindE_Inl_iff)

lemma validateNumber_range:
  assumes "validateNumber P v lo hi = Inr (Some x)"
  shows "lo \<le> x \<and> x \<le> hi"
proof -
  from assms obtain s where
    "Some x = (case parseFloat P s of
                 Fin num \<Rightarrow> if num < lo \<or> num > hi then None else Some num
               | _ \<Rightarrow> None)"
    by (auto simp: validateNumber_Inr)
  then show ?thesis
    by (cases "parseFloat P s") (auto split: if_splits)
qed

lemma validateInteger_range:
  assumes "validateInteger P v lo hi = Inr (Some n)"
  shows "lo \<le> n \<and> n \<le> hi"
proof -
  from assms obtain s where
    "Some n = (case parseInt10 s of
                 None \<Rightarrow> None
               | Some num \<Rightarrow> if num < lo \<or> num > hi then None else Some num)"
    by (auto simp: validateInteger_Inr)
  then show ?thesis
    by (cases "parseInt10 s") (auto split: if_splits)
qed

lemma validateNumber_field: "\<exists>r. validateNumber P (field row c) lo hi = Inr r"
  using ToString_field [of P row c] by (auto simp: validateNumber_Inr)

lemma validateInteger_field: "\<exists>r. validateInteger P (field row c) lo hi = Inr r"
  using ToString_field [of P row c] by (auto simp: validateInteger_Inr)

lemma validateDate_Some:
  "validateDate P v = Some t \<longleftrightarrow>
     (\<exists>s. v = JStr s \<and> dateRegex s \<and> Date_new P s = Some t \<and>
        1900 \<le> getFullYear P t \<and> getFullYear P t \<le> 2030)"
  by (auto simp: validateDate_def dateRegex_def split: js_value.splits option.splits)

lemma validateURL_Some:
  "validateURL P v = Some h \<longleftrightarrow>
     (\<exists>s u. v = JStr s \<and> s \<noteq> [] \<and> URL_new P s = Some u \<and> protocol u = ''https:'' \<and>
        endsWith (hostname u) ''sec.gov'' \<and> h = href u)"
  by (auto simp: validateURL_def split: js_value.splits option.splits)

lemma endsWith_append: "endsWith h t \<Longrightarrow> \<exists>p. h = p @ t"
  unfolding endsWith_def by (metis append_take_drop_id)

lemma endsWith_tl:
  assumes "endsWith h (c # t)"
  shows "endsWith h t"
proof -
  from assms have len: "Suc (length t) \<le> length h"
    and d: "drop (length h - Suc (length t)) h = c # t"
    by (simp_all add: endsWith_def)
  from len have "length h - length t = Suc (length h - Suc (length t))"
    by simp
  then have "drop (length h - length t) h = tl (drop (length h - Suc (length t)) h)"
    by (simp add: drop_Suc tl_drop)
  with d have "drop (length h - length t) h = t"
    by simp
  with len show ?thesis
    by (simp add: endsWith_def)
qed

lemma trustedHost_endsWith: "trustedHost h \<Longrightarrow> endsWith h ''sec.gov''"
  unfolding trustedHost_def
  by (erule disjE) (simp add: endsWith_def, erule endsWith_tl)

lemmas validator_defs =
  validateString_def validateNumber_def validateInteger_def validateDate_def validateURL_def
  parseInt10_def parseFloat_def startsDecimalLiteral_def isWhiteSpace_def isDigit_def
  digitsVal_def digitVal_def dateRegex_def endsWith_def trim_def dangerous_def

text \<open>
  Claim C8, as amended. \<^verbatim>\<open>validateString\<close>, \<^verbatim>\<open>validateDate\<close> and \<^verbatim>\<open>validateURL\<close> return on
  every value. \<^verbatim>\<open>validateNumber\<close> and \<^verbatim>\<open>validateInteger\<close> return on every value that has a
  conversion to a string; on a value that has none (a Symbol, an object whose conversion
  throws, an array that holds such a value) they raise the error of the conversion. A
  result other than the invalid sentinel is within bounds: a string of at most
  \<open>maxLength\<close> code units; a number or an integer in \<open>[min, max]\<close>; a date of a string
  \<open>YYYY-MM-DD\<close> whose calendar year on the host lies in \<open>[1900, 2030]\<close>, and so does the
  year written in the string whenever the two years agree; the \<open>href\<close> of a parsed
  \<^verbatim>\<open>https\<close> URL whose host name is some string followed by \<^verbatim>\<open>sec.gov\<close>. Every
  \<^verbatim>\<open>https\<close> URL whose host is the registry domain or a subdomain of it is accepted. \<^verbatim>\<open>null\<close> and the booleans are rejected by every validator; the empty string
  is rejected by all but \<^verbatim>\<open>validateString\<close>, which returns it; a Symbol is rejected by the
  three validators that return on it.
\<close>

theorem validators_total:
  "(validateString v n = None \<or> (\<exists>r. validateString v n = Some r \<and> length r \<le> n)) \<and>
   (convertible v \<longrightarrow>
      validateNumber P v lo hi = Inr None \<or>
      (\<exists>x. validateNumber P v lo hi = Inr (Some x) \<and> lo \<le> x \<and> x \<le> hi)) \<and>
   (convertible v \<longrightarrow>
      validateInteger P v ilo ihi = Inr None \<or>
      (\<exists>i. validateInteger P v ilo ihi = Inr (Some i) \<and> ilo \<le> i \<and> i \<le> ihi)) \<and>
   (\<not> convertible v \<longrightarrow>
      (\<exists>e. ToString P v = Inl e \<and> validateNumber P v lo hi = Inl e \<and>
         validateInteger P v ilo ihi = Inl e)) \<and>
   (validateDate P v = None \<or>
      (\<exists>s t. validateDate P v = Some t \<and> v = JStr s \<and> dateRegex s \<and> Date_new P s = Some t \<and>
         1900 \<le> getFullYear P t \<and> getFullYear P t \<le> 2030 \<and>
         (getFullYear P t = writtenYear s \<longrightarrow> 1900 \<le> writtenYear s \<and> writtenYear s \<le> 2030))) \<and>
   (validateURL P v = None \<or>
      (\<exists>s u p. validateURL P v = Some (href u) \<and> v = JStr s \<and> URL_new P s = Some u \<and>
         protocol u = ''https:'' \<and> hostname u = p @ ''sec.gov'')) \<and>
   (w \<noteq> [] \<and> URL_new P w = Some url \<and> protocol url = ''https:'' \<and> trustedHost (hostname url) \<longrightarrow>
      validateURL P (JStr w) = Some (href url)) \<and>
   validateString JNull n = None \<and> validateNumber P JNull lo hi = Inr None \<and>
   validateInteger P JNull ilo ihi = Inr None \<and> validateDate P JNull = None \<and>
   validateURL P JNull = None \<and>
   validateString (JBool b) n = None \<and> validateNumber P (JBool b) lo hi = Inr None \<and>
   validateInteger P (JBool b) ilo ihi = Inr None \<and> validateDate P (JBool b) = None \<and>
   validateURL P (JBool b) = None \<and>
   validateString (JStr []) n = Some [] \<and> validateNumber P (JStr []) lo hi = Inr None \<and>
   validateInteger P (JStr []) ilo ihi = Inr None \<and> validateDate P (JStr []) = None \<and>
   validateURL P (JStr []) = None \<and>
   validateString JSymbol n = None \<and> validateDate P JSymbol = None \<and>
   validateURL P JSymbol = None"
proof -
  have a: "validateString v n = None \<or> (\<exists>r. validateString v n = Some r \<and> length r \<le> n)"
    by (cases "validateString v n") (auto dest: validateString_length)
  have b: "convertible v \<longrightarrow>
      validateNumber P v lo hi = Inr None \<or>
      (\<exists>x. validateNumber P v lo hi = Inr (Some x) \<and> lo \<le> x \<and> x \<le> hi)"
  proof
    assume "convertible v"
    then obtain s where "ToString P v = Inr s"
      using ToString_convertible(1) [of P v] by blast
    then obtain r where r: "validateNumber P v lo hi = Inr r"
      by (auto simp: validateNumber_Inr)
    show "validateNumber P v lo hi = Inr None \<or>
      (\<exists>x. validateNumber P v lo hi = Inr (Some x) \<and> lo \<le> x \<and> x \<le> hi)"
      using r validateNumber_range [of P v lo hi] by (cases r) auto
  qed
  have c: "convertible v \<longrightarrow>
      validateInteger P v ilo ihi = Inr None \<or>
      (\<exists>i. validateInteger P v ilo ihi = Inr (Some i) \<and> ilo \<le> i \<and> i \<le> ihi)"
  proof
    assume "convertible v"
    then obtain s where "ToString P v = Inr s"
      using ToString_convertible(1) [of P v] by blast
    then obtain r where r: "validateInteger P v ilo ihi = Inr r"
      by (auto simp: validateInteger_Inr)
    show "validateInteger P v ilo ihi = Inr None \<or>
      (\<exists>i. validateInteger P v ilo ihi = Inr (Some i) \<and> ilo \<le> i \<and> i \<le> ihi)"
      using r validateInteger_range [of P v ilo ihi] by (cases r) auto
  qed
  have d: "\<not> convertible v \<longrightarrow>
      (\<exists>e. ToString P v = Inl e \<and> validateNumber P v lo hi = Inl e \<and>
         validateInteger P v ilo ihi = Inl e)"
    using ToString_not_convertible [of v P]
    by (auto simp: validateNumber_Inl validateInteger_Inl)
  have e: "validateDate P v = None \<or>
      (\<exists>s t. validateDate P v = Some t \<and> v = JStr s \<and> dateRegex s \<and> Date_new P s = Some t \<and>
         1900 \<le> getFullYear P t \<and> getFullYear P t \<le> 2030 \<and>
         (getFullYear P t = writtenYear s \<longrightarrow> 1900 \<le> writtenYear s \<and> writtenYear s \<le> 2030))"
  proof (cases "validateDate P v")
    case None
    then show ?thesis by simp
  next
    case (Some t)
    then obtain s where "v = JStr s" "dateRegex s" "Date_new P s = Some t"
      "1900 \<le> getFullYear P t" "getFullYear P t \<le> 2030"
      by (auto simp: validateDate_Some)
    with Some show ?thesis by auto
  qed
  have f: "validateURL P v = None \<or>
      (\<exists>s u p. validateURL P v = Some (href u) \<and> v = JStr s \<and> URL_new P s = Some u \<and>
         protocol u = ''https:'' \<and> hostname u = p @ ''sec.gov'')"
  proof (cases "validateURL P v")
    case None
    then show ?thesis by simp
  next
    case (Some r)
    then obtain s u where u: "v = JStr s" "URL_new P s = Some u" "protocol u = ''https:''"
      "endsWith (hostname u) ''sec.gov''" "r = href u"
      by (auto simp: validateURL_Some)
    from u(4) obtain p where "hostname u = p @ ''sec.gov''"
      using endsWith_append by blast
    with Some u show ?thesis by blast
  qed
  have g: "w \<noteq> [] \<and> URL_new P w = Some url \<and> protocol url = ''https:'' \<and>
      trustedHost (hostname url) \<longrightarrow> validateURL P (JStr w) = Some (href url)"
    by (auto simp: validateURL_Some dest: trustedHost_endsWith)
  have h: "validateString JNull n = None" "validateNumber P JNull lo hi = Inr None"
    "validateInteger P JNull ilo ihi = Inr None" "validateDate P JNull = None"
    "validateURL P JNull = None"
    by (simp_all add: validator_defs)
  have i: "validateString (JBool b) n = None" "validateNumber P (JBool b) lo hi = Inr None"
    "validateInteger P (JBool b) ilo ihi = Inr None" "validateDate P (JBool b) = None"
    "validateURL P (JBool b) = None"
    by (simp_all add: validator_defs)
  have j: "validateString (JStr []) n = Some []" "validateNumber P (JStr []) lo hi = Inr None"
    "validateInteger P (JStr []) ilo ihi = Inr None" "validateDate P (JStr []) = None"
    "validateURL P (JStr []) = None"
    by (simp_all add: validator_defs)
  have k: "validateString JSymbol n = None" "validateDate P JSymbol = None"
    "validateURL P JSymbol = None"
    by (simp_all add: validator_defs)
  from a b c d e f g h i j k show ?thesis
    by (intro conjI)
qed

lemma host_dates:
  "Date_new exampleHost ''2023-12-30'' = Some 1703894400000"
  "getFullYear exampleHost 1703894400000 = 2023"
  "writtenYear ''2023-12-30'' = 2023"
  "Date_new westHost ''2031-01-01'' = Some 1924992000000"
  "getFullYear westHost 1924992000000 = 2030"
  "isoDate westHost 1924992000000 = ''2031-01-01''"
  "writtenYear ''2031-01-01'' = 2031"
  by (simp_all add: exampleHost_def exampleDates_def westHost_def writtenYear_def isoDate_def
      digitsVal_def digitVal_def)

lemma validateInteger_num:
  "validateInteger P (JNum (Fin 2021)) 1900 2030 = Inr (Some 2021)"
  "validateInteger P (JNum (Fin 2020)) 1900 2030 = Inr (Some 2020)"
  "validateInteger P (JNum (Fin 1)) 1 4 = Inr (Some 1)"
  "validateInteger P (JNum (Fin 4)) 1 4 = Inr (Some 4)"
  by (simp_all add: validateInteger_def Number_toString_def showInt_def showNat.simps
      parseInt10_def isWhiteSpace_def isDigit_def digitsVal_def digitVal_def digitChar_def Let_def)

theorem validators_total_witness:
  "convertible (JStr ''https://sec.gov/x'') \<and>
   validateInteger exampleHost (JStr ''https://sec.gov/x'') 1900 2030 = Inr None \<and>
   URL_new exampleHost ''https://sec.gov/x'' =
     Some \<lparr>protocol = ''https:'', hostname = ''sec.gov'', href = ''https://sec.gov/x''\<rparr> \<and>
   trustedHost ''sec.gov'' \<and>
   validateURL exampleHost (JStr ''https://sec.gov/x'') = Some ''https://sec.gov/x'' \<and>
   \<not> convertible JSymbol \<and>
   validateInteger exampleHost JSymbol 1900 2030 = Inl TypeError \<and>
   validateNumber exampleHost JSymbol 0 1 = Inl TypeError \<and>
   validateDate exampleHost (JStr ''2023-12-30'') = Some 1703894400000 \<and>
   getFullYear exampleHost 1703894400000 = writtenYear ''2023-12-30'' \<and>
   writtenYear ''2023-12-30'' = 2023"
proof -
  have u: "URL_new exampleHost ''https://sec.gov/x'' =
     Some \<lparr>protocol = ''https:'', hostname = ''sec.gov'', href = ''https://sec.gov/x''\<rparr>"
    by (simp add: exampleHost_def)
  have t: "trustedHost ''sec.gov''"
    by (simp add: trustedHost_def)
  have c: "convertible (JStr ''https://sec.gov/x'')" and nc: "\<not> convertible JSymbol"
    by simp_all
  have i: "validateInteger exampleHost (JStr ''https://sec.gov/x'') 1900 2030 = Inr None"
    by (simp add: validator_defs)
  have d: "validateDate exampleHost (JStr ''2023-12-30'') = Some 1703894400000"
    by (simp add: validateDate_def dateRegex_def isDigit_def host_dates)
  let ?url = "\<lparr>protocol = ''https:'', hostname = ''sec.gov'', href = ''https://sec.gov/x''\<rparr>"
  from validators_total [of "JStr ''https://sec.gov/x''" 200 exampleHost 0 1 1900 2030
      "''https://sec.gov/x''" ?url] u t
  have url: "validateURL exampleHost (JStr ''https://sec.gov/x'') = Some ''https://sec.gov/x''"
    by simp
  from validators_total [of JSymbol 200 exampleHost 0 1 1900 2030 "''https://sec.gov/x''" ?url] nc
  have s: "validateInteger exampleHost JSymbol 1900 2030 = Inl TypeError"
    "validateNumber exampleHost JSymbol 0 1 = Inl TypeError"
    by auto
  from c i u t url nc s d host_dates(2,3) show ?thesis
    by simp
qed

text \<open>
  The claim as stated fails. \<^verbatim>\<open>validateInteger\<close> and \<^verbatim>\<open>validateNumber\<close> raise a TypeError on
  a Symbol and on an object whose conversion to a string throws, and the exported filter
  hands its year argument to \<^verbatim>\<open>validateInteger\<close> as it is. On a host five hours west of
  Greenwich \<^verbatim>\<open>validateDate\<close> accepts \<^verbatim>\<open>2031-01-01\<close>: the string is read as midnight UTC, which
  on that host is still in 2030, and the date is stored as \<^verbatim>\<open>2031-01-01\<close>.
\<close>

theorem validators_raise_counterexample:
  "validateInteger exampleHost JSymbol 1900 2030 = Inl TypeError \<and>
   validateNumber exampleHost (JObj (Inl TypeError)) 0 1 = Inl TypeError \<and>
   secureFilterData exampleHost quarterData (JArr []) JSymbol (JNum (Fin 2020))
     JUndefined JUndefined = Inl TypeError \<and>
   validateDate westHost (JStr ''2031-01-01'') = Some 1924992000000 \<and>
   isoDate westHost 1924992000000 = ''2031-01-01'' \<and>
   writtenYear ''2031-01-01'' = 2031"
  by (simp add: validateInteger_def validateNumber_def secureFilterData_def validateDate_def
      dateRegex_def isDigit_def host_dates)

text \<open>
  Claim C1 says that a host name which merely ends with the registry suffix, such as
  \<^verbatim>\<open>evilsec.gov\<close>, is rejected. The validator tests the host name with \<^verbatim>\<open>endsWith\<close>
  only: the URL \<^verbatim>\<open>https://evilsec.gov/x\<close> is accepted, although its host is neither
  \<^verbatim>\<open>sec.gov\<close> nor a subdomain of it.
\<close>

theorem validateURL_lookalike:
  "validateURL exampleHost (JStr ''https://evilsec.gov/x'') = Some ''https://evilsec.gov/x'' \<and>
   URL_new exampleHost ''https://evilsec.gov/x'' =
     Some \<lparr>protocol = ''https:'', hostname = ''evilsec.gov'', href = ''https://evilsec.gov/x''\<rparr> \<and>
   \<not> trustedHost ''evilsec.gov''"
  by (simp add: validateURL_def exampleHost_def endsWith_def trustedHost_def)

section \<open>The metric-record sanitizer\<close>

lemma optional_Inr:
  "\<exists>r. m = Inr r \<Longrightarrow> \<exists>r. (if b then m else Inr d) = Inr r"
  by auto

text \<open>
  Claim C4. A task row whose \<open>Form_id\<close> validates and whose \<open>CCP\<close> and \<open>LTD\<close> validate
  in range yields a record, whatever the auxiliary columns hold; zero is in range.
\<close>

theorem sanitizeTaskData_accepts:
  assumes "validateInteger P (field row ''Form_id'') 1 MAX_ROWS = Inr (Some f)"
    and "validateNumber P (field row ''CCP'') 0 MAX_SAFE_INTEGER = Inr (Some c)"
    and "validateNumber P (field row ''LTD'') 0 MAX_SAFE_INTEGER = Inr (Some l)"
  shows "\<exists>task. sanitizeTaskData P row = Inr (Some task) \<and> formId task = showInt f \<and>
           ccp_t task = c \<and> ltd_t task = l"
proof -
  obtain a1 where a1: "(if truthy (field row ''TextListLen'')
      then validateInteger P (field row ''TextListLen'') 0 1000 else Inr None) = Inr a1"
    using validateInteger_field [of P row "''TextListLen''" 0 1000, THEN optional_Inr] by blast
  obtain a2 where a2: "(if truthy (field row ''TableIndex'')
      then validateInteger P (field row ''TableIndex'') 0 100 else Inr None) = Inr a2"
    using validateInteger_field [of P row "''TableIndex''" 0 100, THEN optional_Inr] by blast
  obtain a3 where a3: "(if truthy (field row ''SumDivider'')
      then validateNumber P (field row ''SumDivider'')
             (1152921504606847 / 1152921504606846976) 10000
      else Inr (Some 1)) = Inr a3"
    using validateNumber_field [of P row "''SumDivider''"
        "1152921504606847 / 1152921504606846976" 10000, THEN optional_Inr] by blast
  obtain a4 where a4: "(if truthy (field row ''JsonTable'')
      then validateInteger P (field row ''JsonTable'') 0 1 else Inr None) = Inr a4"
    using validateInteger_field [of P row "''JsonTable''" 0 1, THEN optional_Inr] by blast
  obtain a5 where a5: "(if truthy (field row ''ValueColumn'')
      then validateInteger P (field row ''ValueColumn'') 0 10 else Inr None) = Inr a5"
    using validateInteger_field [of P row "''ValueColumn''" 0 10, THEN optional_Inr] by blast
  show ?thesis
    unfolding sanitizeTaskData_def assms a1 a2 a3 a4 a5 by simp
qed

lemma validateInteger_one: "validateInteger P (JStr ''1'') 1 MAX_ROWS = Inr (Some 1)"
  by (simp add: validateInteger_def parseInt10_def isWhiteSpace_def isDigit_def digitsVal_def
      digitVal_def MAX_ROWS_def)

lemma validateNumber_zero:
  "validateNumber exampleHost (JStr ''0'') 0 MAX_SAFE_INTEGER = Inr (Some 0)"
  by (simp add: validateNumber_def parseFloat_def startsDecimalLiteral_def isWhiteSpace_def
      isDigit_def exampleHost_def MAX_SAFE_INTEGER_def)

lemma showInt_one: "showInt 1 = ''1''"
  by (simp add: showInt_def showNat.simps digitChar_def)

theorem sanitizeTaskData_accepts_witness:
  "validateInteger exampleHost (field zeroTaskRow ''Form_id'') 1 MAX_ROWS = Inr (Some 1) \<and>
   validateNumber exampleHost (field zeroTaskRow ''CCP'') 0 MAX_SAFE_INTEGER = Inr (Some 0) \<and>
   validateNumber exampleHost (field zeroTaskRow ''LTD'') 0 MAX_SAFE_INTEGER = Inr (Some 0) \<and>
   (\<exists>task. sanitizeTaskData exampleHost zeroTaskRow = Inr (Some task) \<and> formId task = ''1'' \<and>
      ccp_t task = 0 \<and> ltd_t task = 0) \<and>
   sanitizeTaskData exampleHost zeroTaskRow =
     Inr (Some \<lparr>formId = ''1'', ccp_t = 0, ltd_t = 0, textListLen = None, tableIndex = None,
                sumDivider = None, jsonTable = None, valueColumn = None\<rparr>)"
proof -
  have h1: "validateInteger exampleHost (field zeroTaskRow ''Form_id'') 1 MAX_ROWS = Inr (Some 1)"
    by (simp add: zeroTaskRow_def mkRow_def field_def validateInteger_one)
  have h2: "validateNumber exampleHost (field zeroTaskRow ''CCP'') 0 MAX_SAFE_INTEGER = Inr (Some 0)"
    and h3: "validateNumber exampleHost (field zeroTaskRow ''LTD'') 0 MAX_SAFE_INTEGER = Inr (Some 0)"
    by (simp_all add: zeroTaskRow_def mkRow_def field_def validateNumber_zero)
  have v: "sanitizeTaskData exampleHost zeroTaskRow =
     Inr (Some \<lparr>formId = ''1'', ccp_t = 0, ltd_t = 0, textListLen = None, tableIndex = None,
                sumDivider = None, jsonTable = None, valueColumn = None\<rparr>)"
    unfolding sanitizeTaskData_def h1 h2 h3
    by (simp add: zeroTaskRow_def mkRow_def field_def showInt_one validateInteger_def
        validateNumber_def parseFloat_def startsDecimalLiteral_def parseInt10_def
        isWhiteSpace_def isDigit_def digitsVal_def digitVal_def exampleHost_def)
  from h1 h2 h3 sanitizeTaskData_accepts [OF h1 h2 h3] v show ?thesis
    by (simp add: showInt_one)
qed

section \<open>Properties of the filter\<close>

lemma Object_entries_quarterData: "Object_entries quarterData = quarterData"
  by (simp add: Object_entries_def quarterData_def isArrayIndex_def isDigit_def)

lemma secureFilterData_valid:
  assumes "validateInteger P startYear 1900 2030 = Inr (Some y1)"
    and "validateInteger P endYear 1900 2030 = Inr (Some y2)"
    and "validateInteger P (defaultArg startQuarter (JNum (Fin 1))) 1 4 = Inr (Some q1)"
    and "validateInteger P (defaultArg endQuarter (JNum (Fin 4))) 1 4 = Inr (Some q2)"
    and "y1 \<le> y2" and "length sel \<le> 50"
  shows "secureFilterData P g (JArr sel) startYear endYear startQuarter endQuarter =
           Inr (sort_key date (take 5000 (collect g (sanitizeCompanies sel) (inRange y1 y2 q1 q2))))"
proof -
  have "y1 \<noteq> 0" "y2 \<noteq> 0" "q1 \<noteq> 0" "q2 \<noteq> 0"
    using assms(1-4) by (auto dest!: validateInteger_range)
  then show ?thesis
    using assms by (simp add: secureFilterData_def falsyInt_def Let_def)
qed

lemma sorted_secureFilterData:
  assumes "secureFilterData P g sc sy ey sq eq = Inr out"
  shows "sorted (map date out)"
proof -
  from assms obtain a b c d where
    a: "validateInteger P sy 1900 2030 = Inr a"
    and b: "validateInteger P ey 1900 2030 = Inr b"
    and c: "validateInteger P (defaultArg sq (JNum (Fin 1))) 1 4 = Inr c"
    and d: "validateInteger P (defaultArg eq (JNum (Fin 4))) 1 4 = Inr d"
    unfolding secureFilterData_def by (auto simp: bindE_Inr_iff)
  from assms show ?thesis
    unfolding secureFilterData_def a b c d
    by (auto simp: Let_def split: if_splits js_value.splits)
qed











lemma keeps_filter: "(\<exists>v\<in>set (filter keeps sel). keeps v \<and> Q v) \<longleftrightarrow> (\<exists>v\<in>set sel. keeps v \<and> Q v)"
  by auto


subsection \<open>The inclusion test\<close>



lemma quarterRecord_sel:
  "date (quarterRecord i c y q t d) = t"
  "year (quarterRecord i c y q t d) = y"
  "quarter (quarterRecord i c y q t d) = q"
  "company (quarterRecord i c y q t d) = c"
  "id_c (quarterRecord i c y q t d) = i"
  by (simp_all add: quarterRecord_def)





subsection \<open>The cap\<close>

lemma sort_key_const: "\<forall>x\<in>set xs. f x = c \<Longrightarrow> sort_key f xs = xs"
proof (rule sort_key_id_if_sorted)
  assume "\<forall>x\<in>set xs. f x = c"
  then have "map f xs = replicate (length xs) c"
    by (induction xs) auto
  then show "sorted (map f xs)"
    by simp
qed

lemma sort_key_snoc_least:
  "\<forall>x\<in>set xs. f y < f x \<Longrightarrow> sort_key f (xs @ [y]) = y # sort_key f xs"
  by (induction xs) (auto simp: sort_key_def)

lemma Object_entries_capData: "Object_entries capData = capData"
  by (simp add: Object_entries_def capData_def isArrayIndex_def isDigit_def)

lemma collect_capData:
  "collect capData [] (inRange 2021 2021 1 4) = lateRecs @ [earlyRec]"
proof -
  have "filter (inRange 2021 2021 1 4) lateRecs = lateRecs"
    by (rule filter_True) (auto simp: lateRecs_def quarterRecord_def inRange_def simp del: upt_rec_numeral)
  moreover have "inRange 2021 2021 1 4 earlyRec"
    by (simp add: earlyRec_def quarterRecord_def inRange_def)
  ultimately show ?thesis
    by (simp add: collect_def Object_entries_capData) (simp add: capData_def)
qed

lemma length_lateRecs: "length lateRecs = 5000"
  by (simp add: lateRecs_def del: upt_rec_numeral)

lemma sort_lateRecs: "sort_key date lateRecs = lateRecs"
  by (rule sort_key_const [where c = 1617148800000])
    (auto simp: lateRecs_def quarterRecord_sel simp del: upt_rec_numeral)

text \<open>
  Claim C2, as amended. When more than 5000 records match, the filter returns without an
  error the first 5000 matches in the order of collection (the companies in the order of
  \<^verbatim>\<open>Object.keys\<close>, each company's records in their stored order), sorted by date; these
  need not be the 5000 earliest. Every sequence the filter returns is non-decreasing by
  date.
\<close>

theorem secureFilterData_cap:
  assumes "validateInteger P startYear 1900 2030 = Inr (Some y1)"
    and "validateInteger P endYear 1900 2030 = Inr (Some y2)"
    and "validateInteger P (defaultArg startQuarter (JNum (Fin 1))) 1 4 = Inr (Some q1)"
    and "validateInteger P (defaultArg endQuarter (JNum (Fin 4))) 1 4 = Inr (Some q2)"
    and "y1 \<le> y2" and "length sel \<le> 50"
    and "5000 < length (collect g (sanitizeCompanies sel) (inRange y1 y2 q1 q2))"
  shows "(\<exists>out. secureFilterData P g (JArr sel) startYear endYear startQuarter endQuarter = Inr out \<and>
            out = sort_key date (take 5000 (collect g (sanitizeCompanies sel) (inRange y1 y2 q1 q2))) \<and>
            length out = 5000 \<and> sorted (map date out)) \<and>
         (\<forall>g' c' a b c d out'.
            secureFilterData P g' c' a b c d = Inr out' \<longrightarrow> sorted (map date out'))"
proof
  show "\<exists>out. secureFilterData P g (JArr sel) startYear endYear startQuarter endQuarter = Inr out \<and>
            out = sort_key date (take 5000 (collect g (sanitizeCompanies sel) (inRange y1 y2 q1 q2))) \<and>
            length out = 5000 \<and> sorted (map date out)"
    using assms by (simp add: secureFilterData_valid [OF assms(1-6)])
  show "\<forall>g' c' a b c d out'.
            secureFilterData P g' c' a b c d = Inr out' \<longrightarrow> sorted (map date out')"
    by (blast intro: sorted_secureFilterData)
qed

theorem secureFilterData_cap_witness:
  "validateInteger exampleHost (JNum (Fin 2021)) 1900 2030 = Inr (Some 2021) \<and>
   validateInteger exampleHost (defaultArg (JNum (Fin 1)) (JNum (Fin 1))) 1 4 = Inr (Some 1) \<and>
   validateInteger exampleHost (defaultArg (JNum (Fin 4)) (JNum (Fin 4))) 1 4 = Inr (Some 4) \<and>
   5000 < length (collect capData (sanitizeCompanies []) (inRange 2021 2021 1 4)) \<and>
   secureFilterData exampleHost capData (JArr []) (JNum (Fin 2021)) (JNum (Fin 2021))
      (JNum (Fin 1)) (JNum (Fin 4)) = Inr lateRecs \<and>
   length lateRecs = 5000 \<and> sorted (map date lateRecs)"
proof -
  have h1: "validateInteger exampleHost (JNum (Fin 2021)) 1900 2030 = Inr (Some 2021)"
    and h3: "validateInteger exampleHost (defaultArg (JNum (Fin 1)) (JNum (Fin 1))) 1 4 = Inr (Some 1)"
    and h4: "validateInteger exampleHost (defaultArg (JNum (Fin 4)) (JNum (Fin 4))) 1 4 = Inr (Some 4)"
    by (simp_all add: validateInteger_num defaultArg_def)
  have h5: "(2021::int) \<le> 2021" and h6: "length ([]::js_value list) \<le> 50"
    by simp_all
  have h7: "5000 < length (collect capData (sanitizeCompanies []) (inRange 2021 2021 1 4))"
    by (simp add: sanitizeCompanies_def collect_capData length_lateRecs)
  show ?thesis
    using secureFilterData_cap [OF h1 h1 h3 h4 h5 h6 h7] h1 h3 h4 h7
    by (simp add: sanitizeCompanies_def collect_capData length_lateRecs sort_lateRecs)
qed

text \<open>
  The claim as stated fails: with 5000 matches of one company dated 2021-03-31 and a
  later-collected match of another company dated 2021-01-31, the result holds the 5000
  later records and not the earliest one.
\<close>

theorem cap_counterexample:
  "secureFilterData exampleHost capData (JArr []) (JNum (Fin 2021)) (JNum (Fin 2021))
      (JNum (Fin 1)) (JNum (Fin 4)) = Inr lateRecs \<and>
   length (collect capData [] (inRange 2021 2021 1 4)) = 5001 \<and>
   take 5000 (sort_key date (collect capData [] (inRange 2021 2021 1 4))) \<noteq> lateRecs"
proof -
  have a: "secureFilterData exampleHost capData (JArr []) (JNum (Fin 2021)) (JNum (Fin 2021))
      (JNum (Fin 1)) (JNum (Fin 4)) = Inr lateRecs"
    by (subst secureFilterData_valid [where ?y1.0 = 2021 and ?y2.0 = 2021 and ?q1.0 = 1 and ?q2.0 = 4])
      (simp_all add: validateInteger_num defaultArg_def sanitizeCompanies_def collect_capData
        length_lateRecs sort_lateRecs)
  have "\<forall>x\<in>set lateRecs. date earlyRec < date x"
    by (auto simp: lateRecs_def earlyRec_def quarterRecord_def simp del: upt_rec_numeral)
  then have "sort_key date (lateRecs @ [earlyRec]) = earlyRec # sort_key date lateRecs"
    by (rule sort_key_snoc_least)
  then have "earlyRec \<in> set (take 5000 (sort_key date (collect capData [] (inRange 2021 2021 1 4))))"
    by (simp add: collect_capData)
  moreover have "earlyRec \<notin> set lateRecs"
    by (auto simp: lateRecs_def earlyRec_def quarterRecord_def simp del: upt_rec_numeral)
  ultimately have "take 5000 (sort_key date (collect capData [] (inRange 2021 2021 1 4))) \<noteq> lateRecs"
    by metis
  with a show ?thesis
    by (simp add: collect_capData length_lateRecs)
qed

subsection \<open>The company selection\<close>


lemma sanitizeCompanies_fixed:
  "\<forall>k\<in>set ks. k \<noteq> [] \<and> validateString (JStr k) 200 = Some k \<Longrightarrow>
     sanitizeCompanies (map JStr ks) = ks"
  by (induction ks) (auto simp: sanitizeCompanies_def truthyStr_def)

lemma collect_all_keys:
  assumes "set (Object_keys g) \<subseteq> set cs"
  shows "collect g cs p = collect g [] p"
proof -
  have "\<forall>e\<in>set (Object_entries g). fst e \<in> set cs"
    using assms by (auto simp: Object_keys_def)
  then have "filter (\<lambda>(company, items). cs = [] \<or> company \<in> set cs) (Object_entries g) =
      Object_entries g"
    by (intro filter_True) auto
  then show ?thesis
    by (simp add: collect_def)
qed

lemma secureFilterData_same_selection:
  assumes "length sel \<le> 50" and "length sel' \<le> 50"
    and "collect g (sanitizeCompanies sel) = collect g (sanitizeCompanies sel')"
  shows "secureFilterData P g (JArr sel) sy ey sq eq = secureFilterData P g (JArr sel') sy ey sq eq"
  using assms unfolding secureFilterData_def
  by (cases "validateInteger P sy 1900 2030"; cases "validateInteger P ey 1900 2030";
      cases "validateInteger P (defaultArg sq (JNum (Fin 1))) 1 4";
      cases "validateInteger P (defaultArg eq (JNum (Fin 4))) 1 4")
    (auto simp: Let_def)

lemma validateString_plain:
  "validateString (JStr ''Apple Inc.'') 200 = Some ''Apple Inc.''"
  "validateString (JStr ''Zeta Inc'') 200 = Some ''Zeta Inc''"
  by (simp_all add: validateString_def dangerous_def trim_def isWhiteSpace_def)

lemma Object_keys_quarterData: "Object_keys quarterData = [''Apple Inc.'', ''Zeta Inc'']"
  by (simp add: Object_keys_def Object_entries_quarterData) (simp add: quarterData_def)

lemma Object_entries_manyCompanies: "Object_entries manyCompanies = manyCompanies"
proof -
  have "\<forall>e\<in>set manyCompanies. \<not> isArrayIndex (fst e)"
    by (auto simp: manyCompanies_def isArrayIndex_def isDigit_def simp del: upt_rec_numeral)
  then have "filter (\<lambda>(k, v). isArrayIndex k) manyCompanies = []"
    and "filter (\<lambda>(k, v). \<not> isArrayIndex k) manyCompanies = manyCompanies"
    by (auto simp: filter_empty_conv intro!: filter_True)
  then show ?thesis
    by (simp add: Object_entries_def)
qed

text \<open>
  Claim C6, as amended. When groupedData has at most 50 companies and every company name
  is non-empty and left unchanged by \<^verbatim>\<open>validateString(name, 200)\<close>, selecting the full
  list of companies, in any order, gives the same result as the empty selection, for all
  year and quarter arguments.
\<close>

theorem secureFilterData_all_companies:
  assumes "set ks = set (Object_keys g)" and "length ks \<le> 50"
    and "\<forall>k\<in>set ks. k \<noteq> [] \<and> validateString (JStr k) 200 = Some k"
  shows "secureFilterData P g (JArr (map JStr ks)) sy ey sq eq =
         secureFilterData P g (JArr []) sy ey sq eq"
proof (rule secureFilterData_same_selection)
  show "length (map JStr ks) \<le> 50"
    using assms(2) by simp
  show "length ([]::js_value list) \<le> 50"
    by simp
  have "sanitizeCompanies (map JStr ks) = ks"
    using assms(3) by (rule sanitizeCompanies_fixed)
  moreover have "sanitizeCompanies [] = []"
    by (simp add: sanitizeCompanies_def)
  moreover have "set (Object_keys g) \<subseteq> set ks"
    using assms(1) by simp
  ultimately show "collect g (sanitizeCompanies (map JStr ks)) = collect g (sanitizeCompanies [])"
    by (auto simp: fun_eq_iff intro: collect_all_keys)
qed

theorem secureFilterData_all_companies_witness:
  "set [''Apple Inc.'', ''Zeta Inc''] = set (Object_keys quarterData) \<and>
   length [''Apple Inc.'', ''Zeta Inc''] \<le> 50 \<and>
   validateString (JStr ''Apple Inc.'') 200 = Some ''Apple Inc.'' \<and>
   validateString (JStr ''Zeta Inc'') 200 = Some ''Zeta Inc'' \<and>
   secureFilterData exampleHost quarterData (JArr [JStr ''Apple Inc.'', JStr ''Zeta Inc''])
     (JNum (Fin 2020)) (JNum (Fin 2020)) (JNum (Fin 4)) (JNum (Fin 4)) =
   secureFilterData exampleHost quarterData (JArr [])
     (JNum (Fin 2020)) (JNum (Fin 2020)) (JNum (Fin 4)) (JNum (Fin 4))"
proof -
  have h1: "set [''Apple Inc.'', ''Zeta Inc''] = set (Object_keys quarterData)"
    by (simp add: Object_keys_quarterData)
  have h2: "length [''Apple Inc.'', ''Zeta Inc''] \<le> 50"
    by simp
  have h3: "\<forall>k\<in>set [''Apple Inc.'', ''Zeta Inc'']. k \<noteq> [] \<and> validateString (JStr k) 200 = Some k"
    by (simp add: validateString_plain)
  from secureFilterData_all_companies [OF h1 h2 h3, of exampleHost "JNum (Fin 2020)"
      "JNum (Fin 2020)" "JNum (Fin 4)" "JNum (Fin 4)"] h1
  show ?thesis
    by (simp add: validateString_plain)
qed

text \<open>
  The claim as stated fails: with 51 companies the full selection is refused, while the
  empty selection returns every record.
\<close>

theorem all_companies_counterexample:
  "secureFilterData exampleHost manyCompanies (JArr (map JStr (Object_keys manyCompanies)))
     (JNum (Fin 2020)) (JNum (Fin 2020)) (JNum (Fin 4)) (JNum (Fin 4)) =
     Inl (Error ''Too many companies selected'') \<and>
   secureFilterData exampleHost manyCompanies (JArr [])
     (JNum (Fin 2020)) (JNum (Fin 2020)) (JNum (Fin 4)) (JNum (Fin 4)) =
     Inr (concat (map snd manyCompanies))"
proof -
  have len: "length (Object_keys manyCompanies) = 51"
    by (simp add: Object_keys_def Object_entries_manyCompanies)
      (simp add: manyCompanies_def del: upt_rec_numeral)
  have a: "secureFilterData exampleHost manyCompanies (JArr (map JStr (Object_keys manyCompanies)))
     (JNum (Fin 2020)) (JNum (Fin 2020)) (JNum (Fin 4)) (JNum (Fin 4)) =
     Inl (Error ''Too many companies selected'')"
    by (simp add: secureFilterData_def validateInteger_num defaultArg_def falsyInt_def len)
  have all: "\<forall>r\<in>set (concat (map snd manyCompanies)). inRange 2020 2020 4 4 r \<and> date r = 1609372800000"
    by (auto simp: manyCompanies_def inRange_def quarterRecord_sel simp del: upt_rec_numeral)
  have "collect manyCompanies [] (inRange 2020 2020 4 4) =
      filter (inRange 2020 2020 4 4) (concat (map snd manyCompanies))"
    by (simp add: collect_def Object_entries_manyCompanies filter_concat comp_def case_prod_unfold)
  also have "\<dots> = concat (map snd manyCompanies)"
    using all by (intro filter_True) blast
  finally have c: "collect manyCompanies [] (inRange 2020 2020 4 4) = concat (map snd manyCompanies)" .
  have l: "length (concat (map snd manyCompanies)) = 51"
    by (simp add: manyCompanies_def comp_def length_concat sum_list_triv del: upt_rec_numeral)
  have s: "sort_key date (concat (map snd manyCompanies)) = concat (map snd manyCompanies)"
    using all by (intro sort_key_const [where c = 1609372800000]) blast
  have b: "secureFilterData exampleHost manyCompanies (JArr [])
     (JNum (Fin 2020)) (JNum (Fin 2020)) (JNum (Fin 4)) (JNum (Fin 4)) =
     Inr (concat (map snd manyCompanies))"
    by (subst secureFilterData_valid [where ?y1.0 = 2020 and ?y2.0 = 2020 and ?q1.0 = 4 and ?q2.0 = 4])
      (simp_all add: validateInteger_num defaultArg_def sanitizeCompanies_def c l s)
  from a b show ?thesis by simp
qed



lemma keeps_mixed:
  "filter keeps mixedSelection = [JStr ''  Zeta <Inc>'']"
  "validateString (JStr ''  Zeta <Inc>'') 200 = Some ''Zeta Inc''"
  by (simp_all add: mixedSelection_def keeps_def validateString_def truthyStr_def dangerous_def
      trim_def isWhiteSpace_def)






section \<open>The join\<close>

lemma combine_None_iff:
  "combine P stocks forms task = None \<longleftrightarrow> joinFails P stocks forms task"
  by (auto simp: combine_def joinFails_def Let_def split: option.splits)

lemma combine_Some:
  "combine P stocks forms task = Some r \<Longrightarrow>
     id_c r = formId task \<and> ccp r = ccp_t task \<and> ltd r = ltd_t task"
  by (auto simp: combine_def Let_def split: option.splits if_splits)

lemma find_Some_holds: "find p xs = Some x \<Longrightarrow> p x \<and> x \<in> set xs"
  by (induction xs) (auto split: if_splits)

lemma joinTasks_origin:
  "r \<in> set (joinTasks P stocks forms tasks seen acc) \<Longrightarrow>
     r \<in> set acc \<or>
     (\<exists>t. find (\<lambda>t. formId t = id_c r) tasks = Some t \<and> formId t \<notin> seen \<and>
        combine P stocks forms t = Some r)"
proof (induction tasks arbitrary: seen acc)
  case Nil
  then show ?case by simp
next
  case (Cons task tasks)
  show ?case
  proof (cases "formId task \<in> seen")
    case True
    with Cons.prems have "r \<in> set (joinTasks P stocks forms tasks seen acc)"
      by simp
    from Cons.IH [OF this] True show ?thesis
      by (auto dest: find_Some_holds)
  next
    case False
    let ?acc = "case combine P stocks forms task of None \<Rightarrow> acc | Some item \<Rightarrow> acc @ [item]"
    from Cons.prems False
    have "r \<in> set (joinTasks P stocks forms tasks (insert (formId task) seen) ?acc)"
      by simp
    from Cons.IH [OF this]
    consider "r \<in> set acc" | "combine P stocks forms task = Some r"
      | t where "find (\<lambda>t. formId t = id_c r) tasks = Some t" "formId t \<noteq> formId task"
        "formId t \<notin> seen" "combine P stocks forms t = Some r"
      by (auto split: option.splits)
    then show ?thesis
    proof cases
      case 1
      then show ?thesis by simp
    next
      case 2
      with False show ?thesis by (auto dest: combine_Some)
    next
      case 3
      then show ?thesis by (auto dest: find_Some_holds)
    qed
  qed
qed

lemma joinTasks_distinct:
  "distinct (map id_c acc) \<Longrightarrow> id_c ` set acc \<subseteq> seen \<Longrightarrow>
     distinct (map id_c (joinTasks P stocks forms tasks seen acc))"
proof (induction tasks arbitrary: seen acc)
  case Nil
  then show ?case by simp
next
  case (Cons task tasks)
  show ?case
  proof (cases "formId task \<in> seen")
    case True
    with Cons show ?thesis by simp
  next
    case False
    let ?acc = "case combine P stocks forms task of None \<Rightarrow> acc | Some item \<Rightarrow> acc @ [item]"
    have "distinct (map id_c ?acc)"
    proof (cases "combine P stocks forms task")
      case None
      with Cons.prems show ?thesis by simp
    next
      case (Some item)
      then have "id_c item = formId task"
        by (simp add: combine_Some)
      with False Cons.prems(2) have "id_c item \<notin> id_c ` set acc"
        by auto
      with Some Cons.prems(1) show ?thesis by simp
    qed
    moreover have "id_c ` set ?acc \<subseteq> insert (formId task) seen"
      using Cons.prems by (auto split: option.splits dest: combine_Some)
    ultimately have "distinct (map id_c (joinTasks P stocks forms tasks (insert (formId task) seen) ?acc))"
      by (rule Cons.IH)
    with False show ?thesis by simp
  qed
qed

lemma processRows_Inr:
  assumes "processRows P stocksData formsData tasksData = Inr ds"
  shows "\<exists>stocks forms tasks.
           mapE (sanitizeStockData P) stocksData = Inr stocks \<and>
           mapE (sanitizeFormData P) formsData = Inr forms \<and>
           mapE (sanitizeTaskData P) tasksData = Inr tasks \<and>
           combinedData ds =
             sort_key date
               (joinTasks P (stocksMap (filterBoolean stocks)) (formsMap (filterBoolean forms))
                  (filterBoolean tasks) {} [])"
    and "groupByCompany [] (combinedData ds) = Inr (groupedData ds)"
    and "combinedData ds \<noteq> []"
  using assms
  by (auto simp: processRows_def bindE_Inr_iff Let_def split: if_splits sum.splits)

lemma processSecureFinancialData_Inr:
  "processSecureFinancialData P stocksData formsData tasksData = Inr ds \<longleftrightarrow>
     processRows P stocksData formsData tasksData = Inr ds"
  by (auto simp: processSecureFinancialData_def split: sum.splits)

lemmas eval_defs =
  mkRow_def field_def validateString_def validateInteger_def validateNumber_def validateDate_def
  validateURL_def dateRegex_def parseInt10_def isWhiteSpace_def isDigit_def digitsVal_def
  digitVal_def dangerous_def trim_def endsWith_def truthyStr_def falsyInt_def
  showInt_def showNat.simps digitChar_def exampleHost_def exampleDates_def isoDate_def
  MAX_ROWS_def MAX_SAFE_INTEGER_def filterBoolean_def parseFloat_def startsDecimalLiteral_def
  Let_def

lemma example_stocks:
  "mapE (sanitizeStockData exampleHost) stockRows = Inr [Some appleStock, Some microsoftStock]"
  by (simp add: stockRows_def sanitizeStockData_def appleStock_def microsoftStock_def eval_defs)

lemma example_forms:
  "mapE (sanitizeFormData exampleHost) formRows = Inr [Some appleForm, Some microsoftForm]"
  by (simp add: formRows_def sanitizeFormData_def appleForm_def microsoftForm_def eval_defs)

lemma example_tasks:
  "mapE (sanitizeTaskData exampleHost) taskRows =
     Inr [Some (plainTask ''1'' 73100 106042), Some (plainTask ''1'' 0 0),
          Some (plainTask ''9'' 0 0), Some (plainTask ''2'' 0 0)]"
  by (simp add: taskRows_def sanitizeTaskData_def plainTask_def eval_defs)

lemma example_filterBoolean:
  "filterBoolean [Some appleStock, Some microsoftStock] = [appleStock, microsoftStock]"
  "filterBoolean [Some appleForm, Some microsoftForm] = [appleForm, microsoftForm]"
  "filterBoolean [Some (plainTask ''1'' 73100 106042), Some (plainTask ''1'' 0 0),
          Some (plainTask ''9'' 0 0), Some (plainTask ''2'' 0 0)] =
     [plainTask ''1'' 73100 106042, plainTask ''1'' 0 0, plainTask ''9'' 0 0, plainTask ''2'' 0 0]"
  by (simp_all add: filterBoolean_def)

lemma example_combine:
  "combine exampleHost (stocksMap [appleStock, microsoftStock]) (formsMap [appleForm, microsoftForm])
     (plainTask ''1'' 73100 106042) = Some appleRecord"
  "combine exampleHost (stocksMap [appleStock, microsoftStock]) (formsMap [appleForm, microsoftForm])
     (plainTask ''1'' 0 0) = Some (appleRecord\<lparr>ccp := 0, ltd := 0\<rparr>)"
  "combine exampleHost (stocksMap [appleStock, microsoftStock]) (formsMap [appleForm, microsoftForm])
     (plainTask ''9'' 0 0) = None"
  "combine exampleHost (stocksMap [appleStock, microsoftStock]) (formsMap [appleForm, microsoftForm])
     (plainTask ''2'' 0 0) = Some microsoftRecord"
  by (simp_all add: combine_def stocksMap_def formsMap_def plainTask_def appleStock_def
      microsoftStock_def appleForm_def microsoftForm_def appleRecord_def microsoftRecord_def
      eval_defs)

lemma plainTask_formId: "formId (plainTask f c l) = f"
  by (simp add: plainTask_def)

lemma example_join:
  "joinTasks exampleHost (stocksMap [appleStock, microsoftStock])
     (formsMap [appleForm, microsoftForm])
     [plainTask ''1'' 73100 106042, plainTask ''1'' 0 0, plainTask ''9'' 0 0, plainTask ''2'' 0 0]
     {} [] = [appleRecord, microsoftRecord]"
  by (simp add: example_combine plainTask_formId)

lemma example_sort: "sort_key date [appleRecord, microsoftRecord] = [microsoftRecord, appleRecord]"
  by (simp add: appleRecord_def microsoftRecord_def)

lemma example_group:
  "groupByCompany [] [microsoftRecord, appleRecord] =
     Inr [(''Microsoft Corp'', [microsoftRecord]), (''Apple Inc.'', [appleRecord])]"
  by (simp add: Object_prototype_names_def appleRecord_def microsoftRecord_def)

lemma example_keys:
  "Object_keys [(''Microsoft Corp'', [microsoftRecord]), (''Apple Inc.'', [appleRecord])] =
     [''Microsoft Corp'', ''Apple Inc.'']"
  by (simp add: Object_keys_def Object_entries_def isArrayIndex_def isDigit_def)

lemma example_companies:
  "sort [''Microsoft Corp'', ''Apple Inc.''] = [''Apple Inc.'', ''Microsoft Corp'']"
  by (simp add: less_eq_char_def less_char_def)

lemma example_years:
  "sort (remdups (map year [microsoftRecord, appleRecord])) = [2023]"
  by (simp add: appleRecord_def microsoftRecord_def)

lemma example_run:
  "processSecureFinancialData exampleHost stockRows formRows taskRows = Inr exampleDataset"
  unfolding processSecureFinancialData_def processRows_def Let_def example_stocks example_forms
    example_tasks bindE_simps example_filterBoolean example_join example_sort example_group
    example_keys example_companies example_years
  by (simp add: exampleDataset_def stockRows_def formRows_def taskRows_def example_keys
      example_companies example_years)

text \<open>
  Claim C5. In a dataset the pipeline produces, no two combined records share an id, and
  each combined record is the one built from the first sanitized metric record with its
  formId: a later duplicate contributes nothing.
\<close>

theorem combinedData_first_seen:
  assumes "processSecureFinancialData P stocksData formsData tasksData = Inr ds"
  shows "\<exists>stocks forms tasks.
           mapE (sanitizeStockData P) stocksData = Inr stocks \<and>
           mapE (sanitizeFormData P) formsData = Inr forms \<and>
           mapE (sanitizeTaskData P) tasksData = Inr tasks \<and>
           distinct (map id_c (combinedData ds)) \<and>
           (\<forall>r\<in>set (combinedData ds).
              \<exists>t. find (\<lambda>t. formId t = id_c r) (filterBoolean tasks) = Some t \<and>
                combine P (stocksMap (filterBoolean stocks)) (formsMap (filterBoolean forms)) t =
                  Some r)"
proof -
  from assms obtain stocks forms tasks
    where s: "mapE (sanitizeStockData P) stocksData = Inr stocks"
      and f: "mapE (sanitizeFormData P) formsData = Inr forms"
      and t: "mapE (sanitizeTaskData P) tasksData = Inr tasks"
      and cd: "combinedData ds =
        sort_key date
          (joinTasks P (stocksMap (filterBoolean stocks)) (formsMap (filterBoolean forms))
             (filterBoolean tasks) {} [])"
    unfolding processSecureFinancialData_Inr using processRows_Inr(1) by blast
  let ?tasks = "filterBoolean tasks"
  let ?sm = "stocksMap (filterBoolean stocks)"
  let ?fm = "formsMap (filterBoolean forms)"
  let ?joined = "joinTasks P ?sm ?fm ?tasks {} []"
  have "distinct (map id_c ?joined)"
    by (rule joinTasks_distinct) simp_all
  then have "distinct ?joined \<and> inj_on id_c (set ?joined)"
    by (simp add: distinct_map)
  then have a: "distinct (map id_c (combinedData ds))"
    by (simp add: cd distinct_map)
  have b: "\<forall>r\<in>set (combinedData ds).
      \<exists>t. find (\<lambda>t. formId t = id_c r) ?tasks = Some t \<and> combine P ?sm ?fm t = Some r"
    using joinTasks_origin [of _ P ?sm ?fm ?tasks "{}" "[]"] by (auto simp: cd)
  from s f t a b show ?thesis
    by blast
qed

theorem combinedData_first_seen_witness:
  "processSecureFinancialData exampleHost stockRows formRows taskRows = Inr exampleDataset \<and>
   combinedData exampleDataset = [microsoftRecord, appleRecord] \<and>
   mapE (sanitizeTaskData exampleHost) taskRows =
     Inr [Some (plainTask ''1'' 73100 106042), Some (plainTask ''1'' 0 0),
          Some (plainTask ''9'' 0 0), Some (plainTask ''2'' 0 0)] \<and>
   distinct (map id_c (combinedData exampleDataset)) \<and>
   find (\<lambda>t. formId t = ''1'')
     [plainTask ''1'' 73100 106042, plainTask ''1'' 0 0, plainTask ''9'' 0 0, plainTask ''2'' 0 0] =
     Some (plainTask ''1'' 73100 106042) \<and>
   (\<exists>t. find (\<lambda>t. formId t = id_c appleRecord)
           [plainTask ''1'' 73100 106042, plainTask ''1'' 0 0, plainTask ''9'' 0 0,
            plainTask ''2'' 0 0] = Some t \<and>
      combine exampleHost (stocksMap [appleStock, microsoftStock])
        (formsMap [appleForm, microsoftForm]) t = Some appleRecord)"
proof -
  have cd: "combinedData exampleDataset = [microsoftRecord, appleRecord]"
    by (simp add: exampleDataset_def)
  then have mem: "appleRecord \<in> set (combinedData exampleDataset)"
    by simp
  have first: "find (\<lambda>t. formId t = ''1'')
     [plainTask ''1'' 73100 106042, plainTask ''1'' 0 0, plainTask ''9'' 0 0, plainTask ''2'' 0 0] =
     Some (plainTask ''1'' 73100 106042)"
    by (simp add: plainTask_formId)
  from combinedData_first_seen [OF example_run]
  have d: "distinct (map id_c (combinedData exampleDataset))"
    and b: "\<forall>r\<in>set (combinedData exampleDataset).
      \<exists>t. find (\<lambda>t. formId t = id_c r)
            [plainTask ''1'' 73100 106042, plainTask ''1'' 0 0, plainTask ''9'' 0 0,
             plainTask ''2'' 0 0] = Some t \<and>
        combine exampleHost (stocksMap [appleStock, microsoftStock])
          (formsMap [appleForm, microsoftForm]) t = Some r"
    unfolding example_stocks example_forms example_tasks
    by (auto simp: example_filterBoolean)
  from b mem have "\<exists>t. find (\<lambda>t. formId t = id_c appleRecord)
           [plainTask ''1'' 73100 106042, plainTask ''1'' 0 0, plainTask ''9'' 0 0,
            plainTask ''2'' 0 0] = Some t \<and>
      combine exampleHost (stocksMap [appleStock, microsoftStock])
        (formsMap [appleForm, microsoftForm]) t = Some appleRecord"
    by (rule bspec)
  with example_run cd example_tasks d first show ?thesis
    by (intro conjI)
qed

text \<open>
  Claim C9. A formId is marked as processed before any check of the join: when the first
  metric record with a formId fails to join, no combined record carries that formId, even
  if a later record with the same formId would have joined.
\<close>

theorem joinTasks_first_failure:
  assumes "find (\<lambda>t. formId t = f) tasks = Some first"
    and "joinFails P stocks forms first"
  shows "f \<notin> id_c ` set (joinTasks P stocks forms tasks {} [])"
proof
  assume "f \<in> id_c ` set (joinTasks P stocks forms tasks {} [])"
  then obtain r where r: "r \<in> set (joinTasks P stocks forms tasks {} [])" and f: "id_c r = f"
    by blast
  from joinTasks_origin [OF r] f assms(1) have "combine P stocks forms first = Some r"
    by auto
  with assms(2) show False
    by (simp add: combine_None_iff [symmetric])
qed

theorem joinTasks_first_failure_witness:
  "find (\<lambda>t. formId t = ''1'') [overTask, plainTask ''1'' 73100 106042] = Some overTask \<and>
   joinFails exampleHost (stocksMap [appleStock, microsoftStock])
     (formsMap [appleForm, microsoftForm]) overTask \<and>
   combine exampleHost (stocksMap [appleStock, microsoftStock])
     (formsMap [appleForm, microsoftForm]) (plainTask ''1'' 73100 106042) = Some appleRecord \<and>
   ''1'' \<notin> id_c ` set (joinTasks exampleHost (stocksMap [appleStock, microsoftStock])
               (formsMap [appleForm, microsoftForm])
               [overTask, plainTask ''1'' 73100 106042] {} [])"
proof -
  have h1: "find (\<lambda>t. formId t = ''1'') [overTask, plainTask ''1'' 73100 106042] = Some overTask"
    by (simp add: overTask_def plainTask_formId)
  have h2: "joinFails exampleHost (stocksMap [appleStock, microsoftStock])
     (formsMap [appleForm, microsoftForm]) overTask"
    by (simp add: joinFails_def overTask_def plainTask_def)
  from h1 h2 joinTasks_first_failure [OF h1 h2] example_combine(1) show ?thesis
    by (intro conjI)
qed

section \<open>Grouping by company\<close>

lemma groups_of_append_new:
  assumes "groups_of g items" and "map_of g (company item) = None"
  shows "groups_of (g @ [(company item, [item])]) (items @ [item])"
proof -
  from assms(2) have new: "company item \<notin> fst ` set g"
    by (simp add: map_of_eq_None_iff)
  with assms(1) have "company item \<notin> company ` set items"
    by (simp add: groups_of_def)
  then have none: "filter (\<lambda>r. company r = company item) items = []"
    by (induction items) auto
  have a: "distinct (map fst (g @ [(company item, [item])]))"
    using assms(1) new by (simp add: groups_of_def)
  have old: "rs = filter (\<lambda>r. company r = k) (items @ [item])" if "(k, rs) \<in> set g" for k rs
  proof -
    from that new have "k \<noteq> company item"
      by force
    moreover from that assms(1) have "rs = filter (\<lambda>r. company r = k) items"
      by (auto simp: groups_of_def)
    ultimately show ?thesis
      by simp
  qed
  have b: "\<forall>(k, rs)\<in>set (g @ [(company item, [item])]).
      rs = filter (\<lambda>r. company r = k) (items @ [item])"
    using old none by auto
  have c: "fst ` set (g @ [(company item, [item])]) = company ` set (items @ [item])"
    using assms(1) by (simp add: groups_of_def)
  from a b c show ?thesis
    unfolding groups_of_def by blast
qed

lemma groups_of_push:
  assumes "groups_of g items" and "map_of g (company item) = Some rs"
  shows "groups_of (map (\<lambda>(k, v). if k = company item then (k, v @ [item]) else (k, v)) g)
           (items @ [item])"
proof -
  let ?upd = "\<lambda>(k, v). if k = company item then (k, v @ [item]) else (k, v)"
  have keys: "map fst (map ?upd g) = map fst g"
    by (induction g) auto
  from assms(2) have "(company item, rs) \<in> set g"
    by (rule map_of_SomeD)
  then have old: "company item \<in> fst ` set g"
    by force
  have a: "distinct (map fst (map ?upd g))"
    using assms(1) by (simp only: keys groups_of_def)
  have b: "\<forall>(k, v)\<in>set (map ?upd g). v = filter (\<lambda>r. company r = k) (items @ [item])"
  proof -
    have "\<forall>e\<in>set g. snd (?upd e) = filter (\<lambda>r. company r = fst (?upd e)) (items @ [item])"
      using assms(1) by (auto simp: groups_of_def)
    then show ?thesis
      by (auto simp: case_prod_unfold)
  qed
  have "fst ` set (map ?upd g) = set (map fst (map ?upd g))"
    by (simp only: set_map)
  also have "\<dots> = fst ` set g"
    by (simp only: keys set_map)
  also have "\<dots> = company ` set (items @ [item])"
    using assms(1) old by (auto simp: groups_of_def)
  finally have c: "fst ` set (map ?upd g) = company ` set (items @ [item])" .
  from a b c show ?thesis
    unfolding groups_of_def by blast
qed

lemma groupByCompany_groups_of:
  "groupByCompany g items = Inr g' \<Longrightarrow> groups_of g seen \<Longrightarrow> groups_of g' (seen @ items)"
proof (induction items arbitrary: g seen)
  case Nil
  then show ?case by simp
next
  case (Cons item items)
  from Cons.prems(1) have ok: "company item \<notin> set Object_prototype_names"
    by (auto split: if_splits)
  show ?case
  proof (cases "map_of g (company item)")
    case None
    with Cons.prems(1) ok
    have "groupByCompany (g @ [(company item, [item])]) items = Inr g'"
      by simp
    from Cons.IH [OF this groups_of_append_new [OF Cons.prems(2) None]] show ?thesis
      by simp
  next
    case (Some rs)
    with Cons.prems(1) ok
    have "groupByCompany (map (\<lambda>(k, v). if k = company item then (k, v @ [item]) else (k, v)) g)
        items = Inr g'"
      by simp
    from Cons.IH [OF this groups_of_push [OF Cons.prems(2) Some]] show ?thesis
      by simp
  qed
qed

lemma groups_of_mset_aux:
  "distinct (map fst g) \<Longrightarrow> \<forall>(k, rs)\<in>set g. rs = filter (\<lambda>r. company r = k) items \<Longrightarrow>
     mset (concat (map snd g)) = mset (filter (\<lambda>r. company r \<in> fst ` set g) items)"
proof (induction g)
  case Nil
  then show ?case by simp
next
  case (Cons e g)
  obtain k rs where e: "e = (k, rs)" by (cases e)
  from Cons.prems e have k: "k \<notin> fst ` set g" and rs: "rs = filter (\<lambda>r. company r = k) items"
    by auto
  from Cons have IH: "mset (concat (map snd g)) = mset (filter (\<lambda>r. company r \<in> fst ` set g) items)"
    by simp
  have "mset (filter (\<lambda>r. company r = k) items) + mset (filter (\<lambda>r. company r \<in> fst ` set g) items) =
      mset (filter (\<lambda>r. company r \<in> fst ` set (e # g)) items)"
    using k by (induction items) (auto simp: e)
  with IH rs show ?case
    by (simp add: e)
qed

lemma groups_of_mset:
  assumes "groups_of g items"
  shows "mset (concat (map snd g)) = mset items"
proof -
  from assms have "mset (concat (map snd g)) = mset (filter (\<lambda>r. company r \<in> fst ` set g) items)"
    by (intro groups_of_mset_aux) (auto simp: groups_of_def)
  also from assms have "filter (\<lambda>r. company r \<in> fst ` set g) items = items"
    by (intro filter_True) (auto simp: groups_of_def)
  finally show ?thesis .
qed

text \<open>
  Claim C7. In a dataset the pipeline produces, groupedData partitions combinedData: the
  keys are distinct, the group of a key holds exactly the combined records of that company,
  every combined record has its company among the keys, and the groups together hold every
  combined record exactly once.
\<close>

theorem groupedData_partition:
  assumes "processSecureFinancialData P stocksData formsData tasksData = Inr ds"
  shows "distinct (map fst (groupedData ds)) \<and>
         (\<forall>(k, rs)\<in>set (groupedData ds). rs = filter (\<lambda>r. company r = k) (combinedData ds)) \<and>
         (\<forall>r\<in>set (combinedData ds). \<exists>rs. (company r, rs) \<in> set (groupedData ds)) \<and>
         mset (concat (map snd (groupedData ds))) = mset (combinedData ds)"
proof -
  from assms have "groupByCompany [] (combinedData ds) = Inr (groupedData ds)"
    by (simp add: processSecureFinancialData_Inr processRows_Inr(2))
  moreover have "groups_of [] []"
    by (simp add: groups_of_def)
  ultimately have g: "groups_of (groupedData ds) (combinedData ds)"
    using groupByCompany_groups_of by fastforce
  then have "\<forall>r\<in>set (combinedData ds). \<exists>rs. (company r, rs) \<in> set (groupedData ds)"
    by (fastforce simp: groups_of_def image_iff)
  with g groups_of_mset [OF g] show ?thesis
    by (simp add: groups_of_def)
qed

theorem groupedData_partition_witness:
  "processSecureFinancialData exampleHost stockRows formRows taskRows = Inr exampleDataset \<and>
   groupedData exampleDataset =
     [(''Microsoft Corp'', [microsoftRecord]), (''Apple Inc.'', [appleRecord])] \<and>
   distinct (map fst (groupedData exampleDataset)) \<and>
   [appleRecord] = filter (\<lambda>r. company r = ''Apple Inc.'') (combinedData exampleDataset) \<and>
   (\<exists>rs. (company microsoftRecord, rs) \<in> set (groupedData exampleDataset)) \<and>
   mset (concat (map snd (groupedData exampleDataset))) = mset (combinedData exampleDataset)"
proof -
  have g: "groupedData exampleDataset =
     [(''Microsoft Corp'', [microsoftRecord]), (''Apple Inc.'', [appleRecord])]"
    by (simp add: exampleDataset_def)
  then have apple: "(''Apple Inc.'', [appleRecord]) \<in> set (groupedData exampleDataset)"
    by simp
  have ms: "microsoftRecord \<in> set (combinedData exampleDataset)"
    by (simp add: exampleDataset_def)
  from groupedData_partition [OF example_run]
  have a: "distinct (map fst (groupedData exampleDataset))"
    and b: "\<forall>(k, rs)\<in>set (groupedData exampleDataset).
      rs = filter (\<lambda>r. company r = k) (combinedData exampleDataset)"
    and c: "\<forall>r\<in>set (combinedData exampleDataset).
      \<exists>rs. (company r, rs) \<in> set (groupedData exampleDataset)"
    and d: "mset (concat (map snd (groupedData exampleDataset))) = mset (combinedData exampleDataset)"
    by blast+
  from b apple
  have b': "[appleRecord] = filter (\<lambda>r. company r = ''Apple Inc.'') (combinedData exampleDataset)"
    by blast
  from c ms have c': "\<exists>rs. (company microsoftRecord, rs) \<in> set (groupedData exampleDataset)"
    by (rule bspec)
  from example_run g a b' c' d show ?thesis
    by (intro conjI)
qed

end
